theory Spec2Isabelle
  imports Complex_Main
begin

section \<open>JavaScript values\<close>

text \<open>
  The server exchanges JSON with its callers and with the catalog. A value is modelled as
  the JavaScript value it is at run time: \<open>undefined\<close>, \<open>null\<close>, a boolean, a
  number, a string, an array, or a plain object (its own enumerable properties in
  insertion order). Numbers are rationals: every JSON number literal is one; \<open>NaN\<close>,
  the infinities and the negative zero are outside the model. Strings are lists of
  8-bit characters, so the model covers the code units below 256.
\<close>

datatype jsval =
    JUndefined
  | JNull
  | JBool bool
  | JNum rat
  | JStr string
  | JArr "jsval list"
  | JObj "(string \<times> jsval) list"

text \<open>Truthiness, as used by \<open>&&\<close>, \<open>||\<close> and \<open>!\<close>.\<close>

fun truthy :: "jsval \<Rightarrow> bool" where
  "truthy JUndefined = False"
| "truthy JNull = False"
| "truthy (JBool b) = b"
| "truthy (JNum n) = (n \<noteq> 0)"
| "truthy (JStr s) = (s \<noteq> [])"
| "truthy (JArr xs) = True"
| "truthy (JObj kvs) = True"

text \<open>\<open>typeof v === 'object'\<close> (which also holds of \<open>null\<close>) and \<open>Array.isArray\<close>.\<close>

fun typeof_object :: "jsval \<Rightarrow> bool" where
  "typeof_object JNull = True"
| "typeof_object (JArr xs) = True"
| "typeof_object (JObj kvs) = True"
| "typeof_object v = False"

fun is_array :: "jsval \<Rightarrow> bool" where
  "is_array (JArr xs) = True"
| "is_array v = False"

fun typeof_number :: "jsval \<Rightarrow> bool" where
  "typeof_number (JNum n) = True"
| "typeof_number v = False"

text \<open>
  Property read \<open>v.k\<close> for the property names the server reads. A plain object gives its
  own property or \<open>undefined\<close>. The primitives have none of these names, and an array
  inherits only \<open>sort\<close> of them, a function, for which the model has no value: an
  array in the place of an argument object is outside the model. Reading a property of
  \<open>undefined\<close> or \<open>null\<close> throws in JavaScript: the callers below test for that case
  before they read.
\<close>

fun get_prop :: "jsval \<Rightarrow> string \<Rightarrow> jsval" where
  "get_prop (JObj kvs) k = (case map_of kvs k of Some v \<Rightarrow> v | None \<Rightarrow> JUndefined)"
| "get_prop v k = JUndefined"

definition nullish :: "jsval \<Rightarrow> bool" where
  "nullish v = (v = JUndefined \<or> v = JNull)"

section \<open>Characters and text\<close>

definition ascii_upper :: string where
  "ascii_upper = ''ABCDEFGHIJKLMNOPQRSTUVWXYZ''"

definition ascii_lower :: string where
  "ascii_lower = ''abcdefghijklmnopqrstuvwxyz''"

definition ascii_digits :: string where
  "ascii_digits = ''0123456789''"

text \<open>The class \<open>\w\<close> of a regular expression without the unicode flag.\<close>

definition is_word_char :: "char \<Rightarrow> bool" where
  "is_word_char c = (c \<in> set (ascii_lower @ ascii_upper @ ascii_digits @ ''_''))"

text \<open>The class \<open>\s\<close>, restricted to the code units below 256.\<close>

definition is_space :: "char \<Rightarrow> bool" where
  "is_space c = (c \<in> set [CHR 0x09, CHR 0x0A, CHR 0x0B, CHR 0x0C, CHR 0x0D, CHR 0x20, CHR 0xA0])"

text \<open>
  Case folding of the \<open>i\<close> flag: without the unicode flag no character at or above 128
  folds to an ASCII letter, so only the 26 ASCII capitals change.
\<close>

definition to_lower :: "char \<Rightarrow> char" where
  "to_lower c = (case map_of (zip ascii_upper ascii_lower) c of Some l \<Rightarrow> l | None \<Rightarrow> c)"

fun starts_with :: "string \<Rightarrow> string \<Rightarrow> bool" where
  "starts_with [] s = True"
| "starts_with (p # ps) [] = False"
| "starts_with (p # ps) (c # cs) = (p = c \<and> starts_with ps cs)"

fun join :: "string \<Rightarrow> string list \<Rightarrow> string" where
  "join sep [] = []"
| "join sep [x] = x"
| "join sep (x # y # ys) = x @ sep @ join sep (y # ys)"

subsection \<open>Numbers as text\<close>

text \<open>
  \<open>Number::toString\<close>: exact for whole numbers below \<open>10^21\<close> in magnitude (decimal
  digits, no exponent) and for decimals of up to 17 fractional digits.
\<close>

definition digit_char :: "nat \<Rightarrow> char" where
  "digit_char d = ascii_digits ! (d mod 10)"

fun nat_digits :: "nat \<Rightarrow> string" where
  "nat_digits n = (if n < 10 then [digit_char n] else nat_digits (n div 10) @ [digit_char n])"

declare nat_digits.simps [simp del]

fun frac_digits :: "nat \<Rightarrow> rat \<Rightarrow> string" where
  "frac_digits 0 f = []"
| "frac_digits (Suc k) f =
     (if f = 0 then []
      else digit_char (nat \<lfloor>f * 10\<rfloor>) # frac_digits k (f * 10 - of_int \<lfloor>f * 10\<rfloor>))"

definition number_to_string :: "rat \<Rightarrow> string" where
  "number_to_string r =
     (let a = \<bar>r\<bar>; f = a - of_int \<lfloor>a\<rfloor>
      in (if r < 0 then ''-'' else []) @ nat_digits (nat \<lfloor>a\<rfloor>) @
         (if f = 0 then [] else ''.'' @ frac_digits 17 f))"

definition is_integer :: "rat \<Rightarrow> bool" where
  "is_integer r = (snd (quotient_of r) = 1)"

subsection \<open>JSON text\<close>

text \<open>\<open>QuoteJSONString\<close>: the two-character escapes, \<open>\u00XX\<close> for the other controls.\<close>

definition hex_char :: "nat \<Rightarrow> char" where
  "hex_char d = ''0123456789abcdef'' ! (d mod 16)"

definition json_escape :: "char \<Rightarrow> string" where
  "json_escape c =
     (if c = CHR 0x22 then [CHR 0x5C, CHR 0x22]
      else if c = CHR 0x5C then [CHR 0x5C, CHR 0x5C]
      else if c = CHR 0x08 then [CHR 0x5C, CHR ''b'']
      else if c = CHR 0x0C then [CHR 0x5C, CHR ''f'']
      else if c = CHR 0x0A then [CHR 0x5C, CHR ''n'']
      else if c = CHR 0x0D then [CHR 0x5C, CHR ''r'']
      else if c = CHR 0x09 then [CHR 0x5C, CHR ''t'']
      else if (of_char c :: nat) < 32
        then [CHR 0x5C, CHR ''u'', CHR ''0'', CHR ''0'',
              hex_char ((of_char c :: nat) div 16), hex_char (of_char c)]
      else [c])"

definition json_quote :: "string \<Rightarrow> string" where
  "json_quote s = [CHR 0x22] @ concat (map json_escape s) @ [CHR 0x22]"

definition indent :: "nat \<Rightarrow> nat \<Rightarrow> string" where
  "indent gap lvl = replicate (gap * lvl) CHR '' ''"

text \<open>
  \<open>SerializeJSONObject\<close> and \<open>SerializeJSONArray\<close> share their layout: nothing between
  the brackets when there is no member, the members joined by a comma when the gap is
  empty, and one member per line at the next indentation otherwise.
\<close>

definition json_wrap :: "string \<Rightarrow> string \<Rightarrow> nat \<Rightarrow> nat \<Rightarrow> string list \<Rightarrow> string" where
  "json_wrap l r gap lvl items =
     (if items = [] then l @ r
      else if gap = 0 then l @ join '','' items @ r
      else l @ [CHR 0x0A] @ indent gap (Suc lvl) @
           join ('','' @ [CHR 0x0A] @ indent gap (Suc lvl)) items @
           [CHR 0x0A] @ indent gap lvl @ r)"

text \<open>
  \<open>JSON.stringify(v, null, gap)\<close> for a value in value position: an \<open>undefined\<close>
  array element is written \<open>null\<close>, a property whose value is \<open>undefined\<close> is left out.
\<close>

fun json_text :: "nat \<Rightarrow> nat \<Rightarrow> jsval \<Rightarrow> string"
  and json_items :: "nat \<Rightarrow> nat \<Rightarrow> jsval list \<Rightarrow> string list"
  and json_props :: "nat \<Rightarrow> nat \<Rightarrow> (string \<times> jsval) list \<Rightarrow> string list"
where
  "json_text gap lvl JUndefined = ''null''"
| "json_text gap lvl JNull = ''null''"
| "json_text gap lvl (JBool b) = (if b then ''true'' else ''false'')"
| "json_text gap lvl (JNum n) = number_to_string n"
| "json_text gap lvl (JStr s) = json_quote s"
| "json_text gap lvl (JArr xs) = json_wrap ''['' '']'' gap lvl (json_items gap (Suc lvl) xs)"
| "json_text gap lvl (JObj kvs) = json_wrap ''{'' ''}'' gap lvl (json_props gap (Suc lvl) kvs)"
| "json_items gap lvl [] = []"
| "json_items gap lvl (x # xs) = json_text gap lvl x # json_items gap lvl xs"
| "json_props gap lvl [] = []"
| "json_props gap lvl ((k, v) # kvs) =
     (if v = JUndefined then json_props gap lvl kvs
      else (json_quote k @ (if gap = 0 then '':'' else '': '') @ json_text gap lvl v)
           # json_props gap lvl kvs)"

text \<open>\<open>JSON.stringify(v)\<close> of an array or object: a string, with an empty gap.\<close>

definition JSON_stringify :: "jsval \<Rightarrow> string" where
  "JSON_stringify v = json_text 0 0 v"

text \<open>
  \<open>JSON.stringify(data, null, 2)\<close> as the handlers call it: \<open>undefined\<close> for
  \<open>undefined\<close>, the indented text otherwise.
\<close>

definition JSON_stringify_pretty :: "jsval \<Rightarrow> jsval" where
  "JSON_stringify_pretty v = (if v = JUndefined then JUndefined else JStr (json_text 2 0 v))"


text \<open>
  \<open>String(v)\<close>. An array joins its elements with a comma, writing nothing for
  \<open>undefined\<close> and \<open>null\<close>; a plain object is \<open>[object Object]\<close>.
\<close>

fun js_to_string :: "jsval \<Rightarrow> string"
  and js_join_items :: "jsval list \<Rightarrow> string list"
where
  "js_to_string JUndefined = ''undefined''"
| "js_to_string JNull = ''null''"
| "js_to_string (JBool b) = (if b then ''true'' else ''false'')"
| "js_to_string (JNum n) = number_to_string n"
| "js_to_string (JStr s) = s"
| "js_to_string (JArr xs) = join '','' (js_join_items xs)"
| "js_to_string (JObj kvs) = ''[object Object]''"
| "js_join_items [] = []"
| "js_join_items (x # xs) =
     (if x = JUndefined \<or> x = JNull then [] else js_to_string x) # js_join_items xs"

text \<open>
  A thrown value: an \<open>Error\<close> object with its name and message, or any other value.
  \<open>String(e)\<close> of an error is \<open>Error.prototype.toString\<close>.
\<close>

datatype thrown = ErrorObj string string | ThrownValue jsval

fun thrown_to_string :: "thrown \<Rightarrow> string" where
  "thrown_to_string (ErrorObj name msg) =
     (if name = [] then msg else if msg = [] then name else name @ '': '' @ msg)"
| "thrown_to_string (ThrownValue v) = js_to_string v"

section \<open>Regular expressions of the client\<close>

text \<open>
  The assertion \<open>\b\<close> holds between two positions exactly one of which is a word
  character; the start and the end of the text count as no word character.
\<close>

definition is_word_opt :: "char option \<Rightarrow> bool" where
  "is_word_opt c = (case c of None \<Rightarrow> False | Some x \<Rightarrow> is_word_char x)"

definition word_boundary :: "char option \<Rightarrow> char option \<Rightarrow> bool" where
  "word_boundary p n = (is_word_opt p \<noteq> is_word_opt n)"

definition head_opt :: "string \<Rightarrow> char option" where
  "head_opt s = (case s of [] \<Rightarrow> None | c # cs \<Rightarrow> Some c)"

subsection \<open>The SQL guard\<close>

text \<open>
  \<^verbatim>\<open>/\b(drop|delete|update|insert|alter|create|grant|revoke)\b/i\<close>.
  \<open>verb_at prev s v\<close>: the expression matches at the start of \<open>s\<close> through the
  alternative \<open>v\<close>, where \<open>prev\<close> is the character before \<open>s\<close>. \<open>test\<close> tries
  every start position from the left.
\<close>

definition forbidden_verbs :: "string list" where
  "forbidden_verbs =
     [''drop'', ''delete'', ''update'', ''insert'', ''alter'', ''create'', ''grant'', ''revoke'']"

definition verb_at :: "char option \<Rightarrow> string \<Rightarrow> string \<Rightarrow> bool" where
  "verb_at prev s v =
     (word_boundary prev (head_opt s) \<and>
      length v \<le> length s \<and> map to_lower (take (length v) s) = v \<and>
      word_boundary (head_opt (rev (take (length v) s))) (head_opt (drop (length v) s)))"

fun forbidden_test_from :: "char option \<Rightarrow> string \<Rightarrow> bool" where
  "forbidden_test_from prev [] = False"
| "forbidden_test_from prev (c # cs) =
     (list_ex (verb_at prev (c # cs)) forbidden_verbs \<or> forbidden_test_from (Some c) cs)"

definition forbidden_test :: "string \<Rightarrow> bool" where
  "forbidden_test s = forbidden_test_from None s"

subsection \<open>Filter normalization\<close>

text \<open>
  \<^verbatim>\<open>/(\borganization:)([^"\s][^\s]*)/g\<close> matched at the start of \<open>s\<close>: the second
  group and the text after the match. The group is greedy and nothing follows it, so
  it runs to the next white space.
\<close>

definition match_unquoted_org :: "char option \<Rightarrow> string \<Rightarrow> (string \<times> string) option" where
  "match_unquoted_org prev s =
     (if word_boundary prev (head_opt s) \<and> starts_with ''organization:'' s then
        (case drop 13 s of
           [] \<Rightarrow> None
         | c # cs \<Rightarrow>
             if c \<noteq> CHR 0x22 \<and> \<not> is_space c
             then Some (c # takeWhile (\<lambda>x. \<not> is_space x) cs, dropWhile (\<lambda>x. \<not> is_space x) cs)
             else None)
      else None)"

text \<open>
  The global replace with \<^verbatim>\<open>(_m, p1, p2) => `${p1}"${p2}"`\<close>: from the left, a match
  is replaced and the scan goes on behind it; elsewhere the character is kept.
\<close>

function quote_org :: "char option \<Rightarrow> string \<Rightarrow> string" where
  "quote_org prev [] = []"
| "quote_org prev (c # cs) =
     (case match_unquoted_org prev (c # cs) of
        Some (v, rest) \<Rightarrow>
          ''organization:'' @ [CHR 0x22] @ v @ [CHR 0x22] @ quote_org (head_opt (rev v)) rest
      | None \<Rightarrow> c # quote_org (Some c) cs)"
  by pat_completeness auto
termination
proof (relation "measure (\<lambda>(p, s). length s)")
  show "wf (measure (\<lambda>(p, s). length s))" by simp
next
  fix prev :: "char option" and c :: char and cs :: string
  show "((Some c, cs), (prev, c # cs)) \<in> measure (\<lambda>(p, s). length s)" by simp
next
  fix prev :: "char option" and c :: char and cs :: string
    and x2 :: "string \<times> string" and v rest :: string
  assume "match_unquoted_org prev (c # cs) = Some x2" and "(v, rest) = x2"
  then have m: "match_unquoted_org prev (c # cs) = Some (v, rest)" by simp
  then obtain d ds where d: "drop 13 (c # cs) = d # ds"
    and r: "rest = dropWhile (\<lambda>x. \<not> is_space x) ds"
    unfolding match_unquoted_org_def by (auto split: if_splits list.splits)
  have "length rest \<le> length ds" unfolding r by (rule length_dropWhile_le)
  moreover have "length (drop 13 (c # cs)) = Suc (length ds)" unfolding d by simp
  moreover have "length (drop 13 (c # cs)) \<le> length (c # cs)"
    unfolding length_drop by (rule diff_le_self)
  ultimately have "length rest < length (c # cs)" by linarith
  then show "((head_opt (rev v), rest), (prev, c # cs)) \<in> measure (\<lambda>(p, s). length s)"
    by simp
qed

text \<open>
  \<^verbatim>\<open>/\borganization:"([^"]+)"/g\<close> matched at the start of \<open>s\<close>: the group and the
  text after the closing quote. The group cannot run over a quote, so it ends at the
  next one, which must exist, and it must not be empty.
\<close>

definition match_quoted_org :: "char option \<Rightarrow> string \<Rightarrow> (string \<times> string) option" where
  "match_quoted_org prev s =
     (if word_boundary prev (head_opt s) \<and> starts_with (''organization:'' @ [CHR 0x22]) s then
        (let v = takeWhile (\<lambda>x. x \<noteq> CHR 0x22) (drop 14 s);
             rest = dropWhile (\<lambda>x. x \<noteq> CHR 0x22) (drop 14 s)
         in if v \<noteq> [] \<and> rest \<noteq> [] then Some (v, tl rest) else None)
      else None)"

text \<open>
  The global replace with
  \<^verbatim>\<open>(_m, val) => `(organization:"${val}" OR publisher:"${val}")`\<close>.
\<close>

definition org_or_publisher :: "string \<Rightarrow> string" where
  "org_or_publisher v =
     ''(organization:'' @ [CHR 0x22] @ v @ [CHR 0x22] @ '' OR publisher:'' @
     [CHR 0x22] @ v @ [CHR 0x22] @ '')''"

function expand_org :: "char option \<Rightarrow> string \<Rightarrow> string" where
  "expand_org prev [] = []"
| "expand_org prev (c # cs) =
     (case match_quoted_org prev (c # cs) of
        Some (v, rest) \<Rightarrow> org_or_publisher v @ expand_org (Some (CHR 0x22)) rest
      | None \<Rightarrow> c # expand_org (Some c) cs)"
  by pat_completeness auto
termination
proof (relation "measure (\<lambda>(p, s). length s)")
  show "wf (measure (\<lambda>(p, s). length s))" by simp
next
  fix prev :: "char option" and c :: char and cs :: string
  show "((Some c, cs), (prev, c # cs)) \<in> measure (\<lambda>(p, s). length s)" by simp
next
  fix prev :: "char option" and c :: char and cs :: string
    and x2 :: "string \<times> string" and v rest :: string
  assume "match_quoted_org prev (c # cs) = Some x2" and "(v, rest) = x2"
  then have m: "match_quoted_org prev (c # cs) = Some (v, rest)" by simp
  then have r: "rest = tl (dropWhile (\<lambda>x. x \<noteq> CHR 0x22) (drop 14 (c # cs)))"
    unfolding match_quoted_org_def Let_def by (auto split: if_splits)
  have "length rest \<le> length (dropWhile (\<lambda>x. x \<noteq> CHR 0x22) (drop 14 (c # cs)))"
    unfolding r by simp
  moreover have "length (dropWhile (\<lambda>x. x \<noteq> CHR 0x22) (drop 14 (c # cs)))
      \<le> length (drop 14 (c # cs))"
    by (rule length_dropWhile_le)
  moreover have "length (drop 14 (c # cs)) < length (c # cs)" by simp
  ultimately have "length rest < length (c # cs)" by linarith
  then show "((Some (CHR 0x22), rest), (prev, c # cs)) \<in> measure (\<lambda>(p, s). length s)"
    by simp
qed

section \<open>Runtime configuration\<close>

text \<open>
  \<open>CONFIG\<close> of \<open>config.js\<close>, read once from the environment. The four numbers are
  whatever finite numbers the environment gives, so nothing is assumed about their
  sign or order.
\<close>

record config =
  BASE_URL :: string
  ENABLE_SQL :: bool
  TIMEOUT_MS :: rat
  USER_AGENT :: string
  MAX_ROWS :: rat
  DEFAULT_ROWS :: rat

section \<open>Upstream client\<close>

subsection \<open>Requests\<close>

text \<open>
  What the client hands to the HTTP library: the method, the action path, the
  \<open>URLSearchParams\<close> of a GET (names and values as text, in order), the \<open>json\<close>
  option of a POST (the payload object), the timeout of this request, and the logical
  operation name used when a failure is reported.
\<close>

datatype http_method = GET | POST

record http_request =
  verb :: http_method
  path :: string
  searchParams :: "(string \<times> string) list"
  json :: "jsval option"
  timeout :: rat
  actionName :: string

text \<open>
  \<open>URLSearchParams.set\<close>: the first pair of that name takes the value and the later
  ones are removed; a new name is appended.
\<close>

fun sp_set :: "string \<Rightarrow> string \<Rightarrow> (string \<times> string) list \<Rightarrow> (string \<times> string) list" where
  "sp_set k v [] = [(k, v)]"
| "sp_set k v ((k', v') # sp) =
     (if k' = k then (k, v) # filter (\<lambda>(a, b). a \<noteq> k) sp else (k', v') # sp_set k v sp)"

definition encodeParam :: "jsval \<Rightarrow> jsval" where
  "encodeParam v =
     (if is_array v then JStr (JSON_stringify v)
      else if truthy v \<and> typeof_object v then JStr (JSON_stringify v)
      else v)"

text \<open>
  \<open>buildSearchParams\<close> walks \<open>Object.entries(args)\<close> and skips \<open>undefined\<close> and
  \<open>null\<close>. \<open>set\<close> stores the text of its argument.
\<close>

definition buildSearchParams :: "(string \<times> jsval) list \<Rightarrow> (string \<times> string) list" where
  "buildSearchParams args =
     fold (\<lambda>(k, v) sp.
             if v = JUndefined \<or> v = JNull then sp
             else sp_set k (js_to_string (encodeParam v)) sp)
          args []"

definition perRequestTimeout :: "config \<Rightarrow> string \<Rightarrow> rat" where
  "perRequestTimeout cfg name =
     (if name = ''recently_changed_packages_activity_list''
      then TIMEOUT_MS cfg * 2 else TIMEOUT_MS cfg)"

definition getAction :: "config \<Rightarrow> string \<Rightarrow> (string \<times> jsval) list \<Rightarrow> string \<Rightarrow> http_request" where
  "getAction cfg p params name =
     \<lparr>verb = GET, path = p, searchParams = buildSearchParams params, json = None,
      timeout = perRequestTimeout cfg name, actionName = name\<rparr>"

definition postAction :: "config \<Rightarrow> string \<Rightarrow> (string \<times> jsval) list \<Rightarrow> string \<Rightarrow> http_request" where
  "postAction cfg p payload name =
     \<lparr>verb = POST, path = p, searchParams = [], json = Some (JObj payload),
      timeout = perRequestTimeout cfg name, actionName = name\<rparr>"

text \<open>The HTTP library sends \<open>JSON.stringify\<close> of the \<open>json\<close> option as the body.\<close>

definition request_body :: "http_request \<Rightarrow> string option" where
  "request_body req = map_option JSON_stringify (json req)"

subsection \<open>Shared expressions of the operations\<close>

text \<open>
  A property read of \<open>null\<close> (or of \<open>undefined\<close>, where the parameter has no default)
  throws a \<open>TypeError\<close> before any request is built.
\<close>

definition type_error_read :: "jsval \<Rightarrow> string \<Rightarrow> thrown" where
  "type_error_read v k =
     ErrorObj ''TypeError''
       (''Cannot read properties of '' @ js_to_string v @ '' (reading '' @
        [CHR 0x27] @ k @ [CHR 0x27] @ '')'')"

text \<open>The default \<open>args = {}\<close> of a parameter replaces \<open>undefined\<close> only.\<close>

definition default_args :: "jsval \<Rightarrow> jsval" where
  "default_args a = (if a = JUndefined then JObj [] else a)"

text \<open>
  \<^verbatim>\<open>typeof v === 'number' ? Math.min(Math.max(0, v), CONFIG.MAX_ROWS) : undefined\<close> and
  \<^verbatim>\<open>typeof v === 'number' ? Math.max(0, v) : undefined\<close>.
\<close>

definition clamp_limit :: "config \<Rightarrow> jsval \<Rightarrow> jsval" where
  "clamp_limit cfg v =
     (case v of JNum n \<Rightarrow> JNum (min (max 0 n) (MAX_ROWS cfg)) | _ \<Rightarrow> JUndefined)"

definition clamp_offset :: "jsval \<Rightarrow> jsval" where
  "clamp_offset v = (case v of JNum n \<Rightarrow> JNum (max 0 n) | _ \<Rightarrow> JUndefined)"

text \<open>\<^verbatim>\<open>(v && typeof v === 'object') ? v.k : v\<close>, the scalar shorthand of the lookups.\<close>

definition field_or_self :: "jsval \<Rightarrow> string \<Rightarrow> jsval" where
  "field_or_self v k = (if truthy v \<and> typeof_object v then get_prop v k else v)"

subsection \<open>Dataset search\<close>

definition normalizeFq :: "jsval \<Rightarrow> jsval" where
  "normalizeFq fq = (case fq of JStr s \<Rightarrow> JStr (expand_org None (quote_org None s)) | _ \<Rightarrow> fq)"

definition normalizeQ :: "jsval \<Rightarrow> jsval" where
  "normalizeQ q =
     (if q = JUndefined \<or> q = JNull \<or> q = JStr [] then JStr ''*:*''
      else if q = JStr ''*'' then JStr ''*:*''
      else q)"

definition packageSearch :: "config \<Rightarrow> jsval \<Rightarrow> thrown + http_request" where
  "packageSearch cfg a =
     (let args = default_args a in
      if args = JNull then Inl (type_error_read args ''rows'')
      else
        let rows = (case get_prop args ''rows'' of
                      JNum n \<Rightarrow> JNum (min (max 0 n) (MAX_ROWS cfg))
                    | _ \<Rightarrow> JNum (DEFAULT_ROWS cfg))
        in Inr (getAction cfg ''package_search''
                  [(''q'', normalizeQ (get_prop args ''q'')),
                   (''fq'', normalizeFq (get_prop args ''fq'')),
                   (''sort'', get_prop args ''sort''),
                   (''rows'', rows),
                   (''start'', get_prop args ''start''),
                   (''facet.field'', get_prop args ''facetField''),
                   (''facet.limit'', get_prop args ''facetLimit'')]
                  ''package_search''))"

subsection \<open>The other catalog operations\<close>

definition packageShow :: "config \<Rightarrow> jsval \<Rightarrow> thrown + http_request" where
  "packageShow cfg idOrName =
     Inr (getAction cfg ''package_show'' [(''id'', field_or_self idOrName ''id'')] ''package_show'')"

definition packageList :: "config \<Rightarrow> jsval \<Rightarrow> thrown + http_request" where
  "packageList cfg a =
     (let args = default_args a in
      if args = JNull then Inl (type_error_read args ''offset'')
      else Inr (getAction cfg ''package_list''
                  [(''offset'', clamp_offset (get_prop args ''offset'')),
                   (''limit'', clamp_limit cfg (get_prop args ''limit'')),
                   (''since'', get_prop args ''since'')]
                  ''package_list''))"

definition currentPackageListWithResources :: "config \<Rightarrow> jsval \<Rightarrow> thrown + http_request" where
  "currentPackageListWithResources cfg a =
     (let args = default_args a in
      if args = JNull then Inl (type_error_read args ''offset'')
      else Inr (getAction cfg ''current_package_list_with_resources''
                  [(''offset'', clamp_offset (get_prop args ''offset'')),
                   (''limit'', clamp_limit cfg (get_prop args ''limit''))]
                  ''current_package_list_with_resources''))"

definition packageAutocomplete :: "config \<Rightarrow> jsval \<Rightarrow> jsval \<Rightarrow> thrown + http_request" where
  "packageAutocomplete cfg argsOrQ limit =
     (let q = field_or_self argsOrQ ''q'';
          lim = (if truthy argsOrQ \<and> typeof_object argsOrQ
                 then get_prop argsOrQ ''limit'' else limit)
      in Inr (getAction cfg ''package_autocomplete''
                [(''q'', q), (''limit'', clamp_limit cfg lim)]
                ''package_autocomplete''))"

definition packageActivityList :: "config \<Rightarrow> jsval \<Rightarrow> thrown + http_request" where
  "packageActivityList cfg a =
     (let args = default_args a in
      if args = JNull then Inl (type_error_read args ''id'')
      else Inr (getAction cfg ''package_activity_list''
                  [(''id'', get_prop args ''id''),
                   (''limit'', clamp_limit cfg (get_prop args ''limit'')),
                   (''offset'', clamp_offset (get_prop args ''offset''))]
                  ''package_activity_list''))"

subsection \<open>The global activity feed\<close>

text \<open>
  \<open>new Date(t).toISOString()\<close> for a time value \<open>t\<close> in milliseconds since the epoch:
  the proleptic Gregorian date of the day number, then the time of day. A year outside
  \<open>0..9999\<close> is written with a sign and six digits.
\<close>

definition pad_digits :: "nat \<Rightarrow> nat \<Rightarrow> string" where
  "pad_digits w n = replicate (w - length (nat_digits n)) CHR ''0'' @ nat_digits n"

definition civil_from_days :: "int \<Rightarrow> int \<times> int \<times> int" where
  "civil_from_days z0 =
     (let z = z0 + 719468;
          era = z div 146097;
          doe = z mod 146097;
          yoe = (doe - doe div 1460 + doe div 36524 - doe div 146096) div 365;
          doy = doe - (365 * yoe + yoe div 4 - yoe div 100);
          mp = (5 * doy + 2) div 153;
          d = doy - (153 * mp + 2) div 5 + 1;
          m = (if mp < 10 then mp + 3 else mp - 9);
          y = yoe + era * 400 + (if m \<le> 2 then 1 else 0)
      in (y, m, d))"

definition year_text :: "int \<Rightarrow> string" where
  "year_text y =
     (if 0 \<le> y \<and> y \<le> 9999 then pad_digits 4 (nat y)
      else (if y < 0 then ''-'' else ''+'') @ pad_digits 6 (nat \<bar>y\<bar>))"

definition toISOString :: "int \<Rightarrow> string" where
  "toISOString t =
     (let (y, m, d) = civil_from_days (t div 86400000);
          ms = t mod 86400000
      in year_text y @ ''-'' @ pad_digits 2 (nat m) @ ''-'' @ pad_digits 2 (nat d) @ ''T'' @
         pad_digits 2 (nat (ms div 3600000)) @ '':'' @
         pad_digits 2 (nat (ms div 60000 mod 60)) @ '':'' @
         pad_digits 2 (nat (ms div 1000 mod 60)) @ ''.'' @
         pad_digits 3 (nat (ms mod 1000)) @ ''Z'')"

text \<open>\<open>now\<close> is the value of \<open>Date.now()\<close> when the operation runs.\<close>

definition recentlyChangedPackagesActivityList :: "config \<Rightarrow> int \<Rightarrow> jsval \<Rightarrow> thrown + http_request" where
  "recentlyChangedPackagesActivityList cfg now a =
     (let args = default_args a;
          defaultSince = JStr (toISOString (now - 1 * 60 * 60 * 1000))
      in if args = JNull then Inl (type_error_read args ''since_time'')
         else Inr (getAction cfg ''recently_changed_packages_activity_list''
                     [(''since_time'',
                       (if truthy (get_prop args ''since_time'')
                        then get_prop args ''since_time'' else defaultSince)),
                      (''limit'', clamp_limit cfg (get_prop args ''limit'')),
                      (''offset'', clamp_offset (get_prop args ''offset''))]
                     ''recently_changed_packages_activity_list''))"

subsection \<open>Organizations, groups, tags\<close>

definition organizationList :: "config \<Rightarrow> jsval \<Rightarrow> thrown + http_request" where
  "organizationList cfg a =
     (let args = default_args a in
      if args = JNull then Inl (type_error_read args ''all_fields'')
      else Inr (getAction cfg ''organization_list''
                  [(''all_fields'', get_prop args ''all_fields''),
                   (''limit'', clamp_limit cfg (get_prop args ''limit'')),
                   (''offset'', get_prop args ''offset'')]
                  ''organization_list''))"

definition organizationShow :: "config \<Rightarrow> jsval \<Rightarrow> thrown + http_request" where
  "organizationShow cfg i =
     Inr (getAction cfg ''organization_show'' [(''id'', field_or_self i ''id'')]
            ''organization_show'')"

definition groupList :: "config \<Rightarrow> jsval \<Rightarrow> thrown + http_request" where
  "groupList cfg a =
     (let args = default_args a in
      if args = JNull then Inl (type_error_read args ''order_by'')
      else Inr (getAction cfg ''group_list''
                  [(''order_by'', get_prop args ''order_by''),
                   (''limit'', clamp_limit cfg (get_prop args ''limit'')),
                   (''offset'', get_prop args ''offset''),
                   (''all_fields'', get_prop args ''all_fields'')]
                  ''group_list''))"

definition groupShow :: "config \<Rightarrow> jsval \<Rightarrow> thrown + http_request" where
  "groupShow cfg i =
     Inr (getAction cfg ''group_show'' [(''id'', field_or_self i ''id'')] ''group_show'')"

definition tagList :: "config \<Rightarrow> jsval \<Rightarrow> thrown + http_request" where
  "tagList cfg a =
     (let args = default_args a in
      if args = JNull then Inl (type_error_read args ''query'')
      else Inr (getAction cfg ''tag_list'' [(''query'', get_prop args ''query'')] ''tag_list''))"

definition tagAutocomplete :: "config \<Rightarrow> jsval \<Rightarrow> jsval \<Rightarrow> thrown + http_request" where
  "tagAutocomplete cfg argsOrQ limit =
     (let q = field_or_self argsOrQ ''q'';
          lim = (if truthy argsOrQ \<and> typeof_object argsOrQ
                 then get_prop argsOrQ ''limit'' else limit)
      in Inr (getAction cfg ''tag_autocomplete''
                [(''q'', q), (''limit'', clamp_limit cfg lim)]
                ''tag_autocomplete''))"

text \<open>
  The one reshaping of a response: where the result of \<open>tag_autocomplete\<close> is an array,
  its string items become objects with a \<open>name\<close>.
\<close>

definition normalize_tag_result :: "jsval \<Rightarrow> jsval" where
  "normalize_tag_result res =
     (case res of
        JObj kvs \<Rightarrow>
          (case get_prop res ''result'' of
             JArr items \<Rightarrow>
               JObj (map (\<lambda>(k, v).
                      if k = ''result''
                      then (k, JArr (map (\<lambda>item. case item of
                                            JStr s \<Rightarrow> JObj [(''name'', JStr s)]
                                          | _ \<Rightarrow> item) items))
                      else (k, v)) kvs)
           | _ \<Rightarrow> res)
      | _ \<Rightarrow> res)"

definition licenseList :: "config \<Rightarrow> thrown + http_request" where
  "licenseList cfg = Inr (getAction cfg ''license_list'' [] ''license_list'')"

definition vocabularyList :: "config \<Rightarrow> thrown + http_request" where
  "vocabularyList cfg = Inr (getAction cfg ''vocabulary_list'' [] ''vocabulary_list'')"

definition vocabularyShow :: "config \<Rightarrow> jsval \<Rightarrow> thrown + http_request" where
  "vocabularyShow cfg i =
     Inr (getAction cfg ''vocabulary_show'' [(''id'', field_or_self i ''id'')] ''vocabulary_show'')"

definition tagShow :: "config \<Rightarrow> jsval \<Rightarrow> thrown + http_request" where
  "tagShow cfg i =
     Inr (getAction cfg ''tag_show'' [(''id'', field_or_self i ''id'')] ''tag_show'')"

subsection \<open>Resources, views, status\<close>

definition resourceShow :: "config \<Rightarrow> jsval \<Rightarrow> thrown + http_request" where
  "resourceShow cfg i =
     Inr (getAction cfg ''resource_show'' [(''id'', field_or_self i ''id'')] ''resource_show'')"

definition resourceViewShow :: "config \<Rightarrow> jsval \<Rightarrow> thrown + http_request" where
  "resourceViewShow cfg i =
     Inr (getAction cfg ''resource_view_show'' [(''id'', field_or_self i ''id'')]
            ''resource_view_show'')"

definition resourceViewList :: "config \<Rightarrow> jsval \<Rightarrow> thrown + http_request" where
  "resourceViewList cfg argsOrId =
     (let resId = (if truthy argsOrId \<and> typeof_object argsOrId
                   then (if truthy (get_prop argsOrId ''resource_id'')
                         then get_prop argsOrId ''resource_id'' else get_prop argsOrId ''id'')
                   else argsOrId)
      in Inr (getAction cfg ''resource_view_list'' [(''id'', resId)] ''resource_view_list''))"

definition statusShow :: "config \<Rightarrow> thrown + http_request" where
  "statusShow cfg = Inr (getAction cfg ''status_show'' [] ''status_show'')"

definition helpShow :: "config \<Rightarrow> jsval \<Rightarrow> thrown + http_request" where
  "helpShow cfg name = Inr (getAction cfg ''help_show'' [(''name'', name)] ''help_show'')"

subsection \<open>Datastore\<close>

definition datastoreInfo :: "config \<Rightarrow> jsval \<Rightarrow> jsval \<Rightarrow> thrown + http_request" where
  "datastoreInfo cfg i include_private =
     Inr (getAction cfg ''datastore_info'' [(''id'', i), (''include_private'', include_private)]
            ''datastore_info'')"

text \<open>
  The row search destructures its argument, which throws for \<open>undefined\<close> and
  \<open>null\<close>. The payload of the POST and the parameters of the GET are the same twelve
  fields in the same order.
\<close>

definition datastoreSearch :: "config \<Rightarrow> jsval \<Rightarrow> thrown + http_request" where
  "datastoreSearch cfg args =
     (if args = JUndefined \<or> args = JNull
      then Inl (ErrorObj ''TypeError''
                 (''Cannot destructure property '' @ [CHR 0x27] @ ''resource_id'' @ [CHR 0x27] @
                  '' of '' @ [CHR 0x27] @ ''args'' @ [CHR 0x27] @ '' as it is '' @
                  js_to_string args @ ''.''))
      else
        let q = get_prop args ''q'';
            filters = get_prop args ''filters'';
            fields = get_prop args ''fields'';
            safeLimit = (case get_prop args ''limit'' of
                           JNum n \<Rightarrow> JNum (min (max 0 n) (MAX_ROWS cfg))
                         | _ \<Rightarrow> JNum (DEFAULT_ROWS cfg));
            usePost = ((truthy filters \<and> typeof_object filters) \<or>
                       (truthy q \<and> typeof_object q) \<or>
                       (truthy fields \<and> is_array fields));
            payload =
              [(''resource_id'', get_prop args ''resource_id''),
               (''q'', q),
               (''filters'', filters),
               (''fields'', fields),
               (''sort'', get_prop args ''sort''),
               (''language'', get_prop args ''language''),
               (''include_total'',
                (case get_prop args ''include_total'' of JBool b \<Rightarrow> JBool b | _ \<Rightarrow> JBool False)),
               (''limit'', safeLimit),
               (''offset'', get_prop args ''offset''),
               (''distinct'', get_prop args ''distinct''),
               (''plain'', get_prop args ''plain''),
               (''full_text'', get_prop args ''full_text'')]
        in if usePost then Inr (postAction cfg ''datastore_search'' payload ''datastore_search'')
           else Inr (getAction cfg ''datastore_search'' payload ''datastore_search''))"

text \<open>
  The SQL passthrough: the configuration flag first, then the guard on the text of the
  statement (\<open>test\<close> converts its argument to a string), then the POST.
\<close>

definition sql_disabled :: thrown where
  "sql_disabled =
     ErrorObj ''Error''
       ''[CKAN datastore_search_sql] Disabled by server configuration (ENABLE_SQL=false)''"

definition sql_forbidden :: thrown where
  "sql_forbidden = ErrorObj ''Error'' ''[CKAN datastore_search_sql] Forbidden SQL verb detected''"

definition datastoreSearchSql :: "config \<Rightarrow> jsval \<Rightarrow> thrown + http_request" where
  "datastoreSearchSql cfg argsOrSql =
     (let sql = field_or_self argsOrSql ''sql'' in
      if \<not> ENABLE_SQL cfg then Inl sql_disabled
      else if forbidden_test (js_to_string sql) then Inl sql_forbidden
      else Inr (postAction cfg ''datastore_search_sql'' [(''sql'', sql)] ''datastore_search_sql''))"

subsection \<open>Fetching a resource\<close>

text \<open>
  \<open>fetchResource\<close> bypasses the action wrappers and asks for the URL itself, with the
  default timeout.
\<close>

definition fetchResource :: "config \<Rightarrow> string \<Rightarrow> thrown + http_request" where
  "fetchResource cfg url =
     Inr \<lparr>verb = GET, path = url, searchParams = [], json = None,
          timeout = TIMEOUT_MS cfg, actionName = ''fetch_resource''\<rparr>"

subsection \<open>All operations\<close>

text \<open>One constructor for each operation on the action API, with its arguments.\<close>

datatype client_call =
    PackageSearch jsval
  | PackageShow jsval
  | PackageList jsval
  | CurrentPackageListWithResources jsval
  | PackageAutocomplete jsval jsval
  | PackageActivityList jsval
  | RecentlyChangedPackagesActivityList jsval
  | OrganizationList jsval
  | OrganizationShow jsval
  | GroupList jsval
  | GroupShow jsval
  | TagList jsval
  | TagAutocomplete jsval jsval
  | LicenseList
  | VocabularyList
  | VocabularyShow jsval
  | TagShow jsval
  | ResourceShow jsval
  | ResourceViewShow jsval
  | ResourceViewList jsval
  | StatusShow
  | HelpShow jsval
  | DatastoreInfo jsval jsval
  | DatastoreSearch jsval
  | DatastoreSearchSql jsval

text \<open>
  The request an operation issues, or the exception it throws before issuing any.
\<close>

fun client_request :: "config \<Rightarrow> int \<Rightarrow> client_call \<Rightarrow> thrown + http_request" where
  "client_request cfg now (PackageSearch a) = packageSearch cfg a"
| "client_request cfg now (PackageShow a) = packageShow cfg a"
| "client_request cfg now (PackageList a) = packageList cfg a"
| "client_request cfg now (CurrentPackageListWithResources a) =
     currentPackageListWithResources cfg a"
| "client_request cfg now (PackageAutocomplete a l) = packageAutocomplete cfg a l"
| "client_request cfg now (PackageActivityList a) = packageActivityList cfg a"
| "client_request cfg now (RecentlyChangedPackagesActivityList a) =
     recentlyChangedPackagesActivityList cfg now a"
| "client_request cfg now (OrganizationList a) = organizationList cfg a"
| "client_request cfg now (OrganizationShow a) = organizationShow cfg a"
| "client_request cfg now (GroupList a) = groupList cfg a"
| "client_request cfg now (GroupShow a) = groupShow cfg a"
| "client_request cfg now (TagList a) = tagList cfg a"
| "client_request cfg now (TagAutocomplete a l) = tagAutocomplete cfg a l"
| "client_request cfg now LicenseList = licenseList cfg"
| "client_request cfg now VocabularyList = vocabularyList cfg"
| "client_request cfg now (VocabularyShow a) = vocabularyShow cfg a"
| "client_request cfg now (TagShow a) = tagShow cfg a"
| "client_request cfg now (ResourceShow a) = resourceShow cfg a"
| "client_request cfg now (ResourceViewShow a) = resourceViewShow cfg a"
| "client_request cfg now (ResourceViewList a) = resourceViewList cfg a"
| "client_request cfg now StatusShow = statusShow cfg"
| "client_request cfg now (HelpShow a) = helpShow cfg a"
| "client_request cfg now (DatastoreInfo a p) = datastoreInfo cfg a p"
| "client_request cfg now (DatastoreSearch a) = datastoreSearch cfg a"
| "client_request cfg now (DatastoreSearchSql a) = datastoreSearchSql cfg a"

subsection \<open>Running an operation\<close>

text \<open>
  The catalog is an oracle: for a request it gives the parsed JSON body, or the detail
  of a failure (status, message and URL as \<open>mapError\<close> words them). \<open>mapError\<close> turns
  every failure into one \<open>Error\<close> that names the operation.
\<close>

type_synonym network = "http_request \<Rightarrow> string + jsval"

definition mapError :: "string \<Rightarrow> string \<Rightarrow> thrown" where
  "mapError detail name = ErrorObj ''Error'' (''[CKAN '' @ name @ ''] '' @ detail)"

fun reshape_result :: "client_call \<Rightarrow> jsval \<Rightarrow> jsval" where
  "reshape_result (TagAutocomplete a l) res = normalize_tag_result res"
| "reshape_result c res = res"

text \<open>The value an operation resolves to or rejects with, and the requests it issued.\<close>

definition client_op ::
  "network \<Rightarrow> config \<Rightarrow> int \<Rightarrow> client_call \<Rightarrow> (thrown + jsval) \<times> http_request list" where
  "client_op net cfg now c =
     (case client_request cfg now c of
        Inl e \<Rightarrow> (Inl e, [])
      | Inr req \<Rightarrow>
          (case net req of
             Inl detail \<Rightarrow> (Inl (mapError detail (actionName req)), [req])
           | Inr res \<Rightarrow> (Inr (reshape_result c res), [req])))"

section \<open>Validation layer\<close>

text \<open>
  The schemas are built with a schema library that is not part of the repository. The
  model covers the constructors the tools use: \<open>z.string()\<close>, \<open>z.string().min(n)\<close>,
  \<open>z.number().int().positive()\<close>, \<open>z.number().int().nonnegative()\<close>, \<open>z.boolean()\<close>,
  \<open>z.array(z.string())\<close>, \<open>z.record(z.any())\<close> and \<open>z.union\<close> of two of these.
\<close>

datatype ztype =
    ZString
  | ZStringMin nat
  | ZIntPositive
  | ZIntNonnegative
  | ZBoolean
  | ZStringArray
  | ZRecordAny
  | ZUnion ztype ztype

fun type_name :: "jsval \<Rightarrow> string" where
  "type_name JUndefined = ''undefined''"
| "type_name JNull = ''null''"
| "type_name (JBool b) = ''boolean''"
| "type_name (JNum n) = ''number''"
| "type_name (JStr s) = ''string''"
| "type_name (JArr xs) = ''array''"
| "type_name (JObj kvs) = ''object''"

fun is_string :: "jsval \<Rightarrow> bool" where
  "is_string (JStr s) = True"
| "is_string v = False"

text \<open>\<open>check t v\<close>: the complaint of the parser of \<open>t\<close> about \<open>v\<close>, or none.\<close>

fun check :: "ztype \<Rightarrow> jsval \<Rightarrow> string option" where
  "check ZString v =
     (case v of JStr s \<Rightarrow> None | _ \<Rightarrow> Some (''Expected string, received '' @ type_name v))"
| "check (ZStringMin n) v =
     (case v of
        JStr s \<Rightarrow> if length s < n then Some ''String is too short'' else None
      | _ \<Rightarrow> Some (''Expected string, received '' @ type_name v))"
| "check ZIntPositive v =
     (case v of
        JNum r \<Rightarrow> if \<not> is_integer r then Some ''Expected integer, received float''
                  else if \<not> 0 < r then Some ''Number must be greater than 0''
                  else None
      | _ \<Rightarrow> Some (''Expected number, received '' @ type_name v))"
| "check ZIntNonnegative v =
     (case v of
        JNum r \<Rightarrow> if \<not> is_integer r then Some ''Expected integer, received float''
                  else if \<not> 0 \<le> r then Some ''Number must be greater than or equal to 0''
                  else None
      | _ \<Rightarrow> Some (''Expected number, received '' @ type_name v))"
| "check ZBoolean v =
     (case v of JBool b \<Rightarrow> None | _ \<Rightarrow> Some (''Expected boolean, received '' @ type_name v))"
| "check ZStringArray v =
     (case v of
        JArr xs \<Rightarrow> if list_all is_string xs then None else Some ''Expected string''
      | _ \<Rightarrow> Some (''Expected array, received '' @ type_name v))"
| "check ZRecordAny v =
     (case v of JObj kvs \<Rightarrow> None | _ \<Rightarrow> Some (''Expected object, received '' @ type_name v))"
| "check (ZUnion a b) v =
     (if check a v = None \<or> check b v = None then None else Some ''Invalid input'')"

text \<open>
  An object schema: its fields in declaration order, each with its type and whether it
  is optional, and what happens to keys the shape does not declare. \<open>z.object\<close>
  strips them unless \<open>.strict()\<close> is called.
\<close>

datatype unknown_keys = Strip | Strict

record zobject =
  shape :: "(string \<times> ztype \<times> bool) list"
  unknownKeys :: unknown_keys

definition required :: "string \<Rightarrow> ztype \<Rightarrow> string \<times> ztype \<times> bool" where
  "required k t = (k, t, False)"

definition optional :: "string \<Rightarrow> ztype \<Rightarrow> string \<times> ztype \<times> bool" where
  "optional k t = (k, t, True)"

text \<open>An issue: the path of the offending field (empty for the object) and the complaint.\<close>

datatype zissue = Issue string string

definition field_issues :: "jsval \<Rightarrow> string \<times> ztype \<times> bool \<Rightarrow> zissue list" where
  "field_issues input f =
     (case f of (k, t, opt) \<Rightarrow>
        let v = get_prop input k in
        if v = JUndefined then (if opt then [] else [Issue k ''Required''])
        else (case check t v of None \<Rightarrow> [] | Some m \<Rightarrow> [Issue k m]))"

definition extra_keys :: "zobject \<Rightarrow> (string \<times> jsval) list \<Rightarrow> string list" where
  "extra_keys sch kvs = filter (\<lambda>k. k \<notin> set (map fst (shape sch))) (map fst kvs)"

text \<open>
  \<open>safeParse\<close> never throws. On success the data holds the declared fields that the
  input has, in declaration order; an undeclared key is dropped by a stripping schema
  and is an issue of a strict one.
\<close>

definition safeParse :: "zobject \<Rightarrow> jsval \<Rightarrow> zissue list + jsval" where
  "safeParse sch input =
     (case input of
        JObj kvs \<Rightarrow>
          let issues =
                concat (map (field_issues input) (shape sch)) @
                (if unknownKeys sch = Strict \<and> extra_keys sch kvs \<noteq> []
                 then [Issue [] (''Unrecognized key(s) in object: '' @
                                 join '', '' (extra_keys sch kvs))]
                 else [])
          in if issues = []
             then Inr (JObj (map (\<lambda>(k, t, opt). (k, get_prop input k))
                              (filter (\<lambda>(k, t, opt). k \<in> set (map fst kvs)) (shape sch))))
             else Inl issues
      | _ \<Rightarrow> Inl [Issue [] (''Expected object, received '' @ type_name input)])"

text \<open>
  The message of a failed parse. The library's wording is its own; the model writes
  one entry for each issue, the path before the complaint.
\<close>

fun issue_text :: "zissue \<Rightarrow> string" where
  "issue_text (Issue p m) = (if p = [] then m else p @ '': '' @ m)"

definition error_message :: "zissue list \<Rightarrow> string" where
  "error_message issues = join ''; '' (map issue_text issues)"

subsection \<open>The schemas of the tools\<close>

definition PackageSearchSchema :: zobject where
  "PackageSearchSchema =
     \<lparr>shape = [optional ''q'' ZString,
               optional ''fq'' (ZUnion ZString ZStringArray),
               optional ''sort'' ZString,
               optional ''rows'' ZIntPositive,
               optional ''start'' ZIntNonnegative,
               optional ''facetField'' ZStringArray,
               optional ''facetLimit'' ZIntPositive],
      unknownKeys = Strip\<rparr>"

definition PackageShowSchema :: zobject where
  "PackageShowSchema = \<lparr>shape = [required ''id'' ZString], unknownKeys = Strip\<rparr>"

definition PackageListSchema :: zobject where
  "PackageListSchema =
     \<lparr>shape = [optional ''offset'' ZIntNonnegative,
               optional ''limit'' ZIntPositive,
               optional ''since'' ZString],
      unknownKeys = Strip\<rparr>"

definition CurrentPackageListWithResourcesSchema :: zobject where
  "CurrentPackageListWithResourcesSchema =
     \<lparr>shape = [optional ''offset'' ZIntNonnegative, optional ''limit'' ZIntPositive],
      unknownKeys = Strip\<rparr>"

definition PackageAutocompleteSchema :: zobject where
  "PackageAutocompleteSchema =
     \<lparr>shape = [required ''q'' ZString, optional ''limit'' ZIntPositive], unknownKeys = Strip\<rparr>"

definition PackageActivityListSchema :: zobject where
  "PackageActivityListSchema =
     \<lparr>shape = [required ''id'' ZString,
               optional ''limit'' ZIntPositive,
               optional ''offset'' ZIntNonnegative],
      unknownKeys = Strip\<rparr>"

definition RecentlyChangedPackagesActivityListSchema :: zobject where
  "RecentlyChangedPackagesActivityListSchema =
     \<lparr>shape = [optional ''since_time'' ZString,
               optional ''limit'' ZIntPositive,
               optional ''offset'' ZIntNonnegative],
      unknownKeys = Strip\<rparr>"

definition OrganizationListSchema :: zobject where
  "OrganizationListSchema =
     \<lparr>shape = [optional ''all_fields'' ZBoolean,
               optional ''limit'' ZIntPositive,
               optional ''offset'' ZIntNonnegative],
      unknownKeys = Strip\<rparr>"

definition OrganizationShowSchema :: zobject where
  "OrganizationShowSchema = \<lparr>shape = [required ''id'' ZString], unknownKeys = Strip\<rparr>"

definition GroupListSchema :: zobject where
  "GroupListSchema =
     \<lparr>shape = [optional ''order_by'' ZString,
               optional ''limit'' ZIntPositive,
               optional ''offset'' ZIntNonnegative,
               optional ''all_fields'' ZBoolean],
      unknownKeys = Strip\<rparr>"

definition GroupShowSchema :: zobject where
  "GroupShowSchema = \<lparr>shape = [required ''id'' ZString], unknownKeys = Strip\<rparr>"

definition TagListSchema :: zobject where
  "TagListSchema = \<lparr>shape = [optional ''query'' ZString], unknownKeys = Strip\<rparr>"

definition TagAutocompleteSchema :: zobject where
  "TagAutocompleteSchema =
     \<lparr>shape = [required ''q'' ZString, optional ''limit'' ZIntPositive], unknownKeys = Strip\<rparr>"

definition LicenseListSchema :: zobject where
  "LicenseListSchema = \<lparr>shape = [], unknownKeys = Strict\<rparr>"

definition VocabularyListSchema :: zobject where
  "VocabularyListSchema = \<lparr>shape = [], unknownKeys = Strict\<rparr>"

definition VocabularyShowSchema :: zobject where
  "VocabularyShowSchema = \<lparr>shape = [required ''id'' ZString], unknownKeys = Strip\<rparr>"

definition TagShowSchema :: zobject where
  "TagShowSchema = \<lparr>shape = [required ''id'' ZString], unknownKeys = Strip\<rparr>"

definition DatastoreInfoSchema :: zobject where
  "DatastoreInfoSchema =
     \<lparr>shape = [required ''id'' ZString, optional ''include_private'' ZBoolean],
      unknownKeys = Strip\<rparr>"

definition DatastoreSearchSchema :: zobject where
  "DatastoreSearchSchema =
     \<lparr>shape = [required ''resource_id'' ZString,
               optional ''q'' (ZUnion ZString ZRecordAny),
               optional ''filters'' ZRecordAny,
               optional ''fields'' ZStringArray,
               optional ''sort'' ZString,
               optional ''language'' ZString,
               optional ''include_total'' ZBoolean,
               optional ''limit'' ZIntPositive,
               optional ''offset'' ZIntNonnegative,
               optional ''distinct'' ZBoolean,
               optional ''plain'' ZBoolean,
               optional ''full_text'' ZBoolean],
      unknownKeys = Strip\<rparr>"

definition DatastoreSearchSqlSchema :: zobject where
  "DatastoreSearchSqlSchema = \<lparr>shape = [required ''sql'' (ZStringMin 1)], unknownKeys = Strip\<rparr>"

definition ResourceIdSchema :: zobject where
  "ResourceIdSchema = \<lparr>shape = [required ''id'' ZString], unknownKeys = Strip\<rparr>"

definition ResourceViewListSchema :: zobject where
  "ResourceViewListSchema = \<lparr>shape = [required ''resource_id'' ZString], unknownKeys = Strip\<rparr>"

definition HelpShowSchema :: zobject where
  "HelpShowSchema = \<lparr>shape = [required ''name'' ZString], unknownKeys = Strip\<rparr>"

section \<open>Tool registry and handlers\<close>

text \<open>
  A tool: its name, the shape it advertises (the property names and whether further
  properties are allowed), the schema its handler parses the arguments with (none for
  \<open>status_show\<close>, whose handler takes no argument), the text its handler puts before
  the message of a failed parse, and the client call its handler makes from the
  parsed data.
\<close>

record tool =
  name :: string
  properties :: "string list"
  additionalProperties :: bool
  schema :: "zobject option"
  errorPrefix :: string
  call :: "jsval \<Rightarrow> client_call"

definition catalog_tool :: "string \<Rightarrow> zobject \<Rightarrow> (jsval \<Rightarrow> client_call) \<Rightarrow> tool" where
  "catalog_tool n sch c =
     \<lparr>name = n, properties = map fst (shape sch), additionalProperties = False,
      schema = Some sch, errorPrefix = ''Invalid arguments for '' @ n @ '': '', call = c\<rparr>"

definition plain_tool :: "string \<Rightarrow> zobject \<Rightarrow> (jsval \<Rightarrow> client_call) \<Rightarrow> tool" where
  "plain_tool n sch c =
     \<lparr>name = n, properties = map fst (shape sch), additionalProperties = False,
      schema = Some sch, errorPrefix = [], call = c\<rparr>"

definition getCatalogTools :: "tool list" where
  "getCatalogTools =
     [catalog_tool ''package_search'' PackageSearchSchema PackageSearch,
      catalog_tool ''package_show'' PackageShowSchema (\<lambda>d. PackageShow (get_prop d ''id'')),
      catalog_tool ''package_list'' PackageListSchema PackageList,
      catalog_tool ''current_package_list_with_resources''
        CurrentPackageListWithResourcesSchema CurrentPackageListWithResources,
      catalog_tool ''package_autocomplete'' PackageAutocompleteSchema
        (\<lambda>d. PackageAutocomplete (get_prop d ''q'') (get_prop d ''limit'')),
      catalog_tool ''package_activity_list'' PackageActivityListSchema PackageActivityList,
      catalog_tool ''recently_changed_packages_activity_list''
        RecentlyChangedPackagesActivityListSchema RecentlyChangedPackagesActivityList]"

definition getOrgTaxonomyTools :: "tool list" where
  "getOrgTaxonomyTools =
     [plain_tool ''organization_list'' OrganizationListSchema OrganizationList,
      plain_tool ''organization_show'' OrganizationShowSchema
        (\<lambda>d. OrganizationShow (get_prop d ''id'')),
      plain_tool ''group_list'' GroupListSchema GroupList,
      plain_tool ''group_show'' GroupShowSchema (\<lambda>d. GroupShow (get_prop d ''id'')),
      plain_tool ''tag_list'' TagListSchema TagList,
      plain_tool ''tag_autocomplete'' TagAutocompleteSchema
        (\<lambda>d. TagAutocomplete (get_prop d ''q'') (get_prop d ''limit'')),
      plain_tool ''license_list'' LicenseListSchema (\<lambda>d. LicenseList),
      plain_tool ''vocabulary_list'' VocabularyListSchema (\<lambda>d. VocabularyList),
      plain_tool ''vocabulary_show'' VocabularyShowSchema
        (\<lambda>d. VocabularyShow (get_prop d ''id'')),
      plain_tool ''tag_show'' TagShowSchema (\<lambda>d. TagShow (get_prop d ''id''))]"

definition getDatastoreTools :: "tool list" where
  "getDatastoreTools =
     [plain_tool ''datastore_info'' DatastoreInfoSchema
        (\<lambda>d. DatastoreInfo (get_prop d ''id'') (get_prop d ''include_private'')),
      plain_tool ''datastore_search'' DatastoreSearchSchema DatastoreSearch,
      plain_tool ''datastore_search_sql'' DatastoreSearchSqlSchema
        (\<lambda>d. DatastoreSearchSql (get_prop d ''sql''))]"

definition getResourcesTools :: "tool list" where
  "getResourcesTools =
     [plain_tool ''resource_show'' ResourceIdSchema (\<lambda>d. ResourceShow (get_prop d ''id'')),
      plain_tool ''resource_view_show'' ResourceIdSchema
        (\<lambda>d. ResourceViewShow (get_prop d ''id'')),
      plain_tool ''resource_view_list'' ResourceViewListSchema
        (\<lambda>d. ResourceViewList (get_prop d ''resource_id''))]"

definition getStatusTools :: "tool list" where
  "getStatusTools =
     [\<lparr>name = ''status_show'', properties = [], additionalProperties = False,
       schema = None, errorPrefix = [], call = (\<lambda>d. StatusShow)\<rparr>,
      plain_tool ''help_show'' HelpShowSchema (\<lambda>d. HelpShow (get_prop d ''name''))]"

definition toolDefs :: "tool list" where
  "toolDefs =
     getCatalogTools @ getOrgTaxonomyTools @ getDatastoreTools @ getResourcesTools @
     getStatusTools"

subsection \<open>Result envelopes\<close>

definition text_content :: "jsval \<Rightarrow> jsval" where
  "text_content t = JArr [JObj [(''type'', JStr ''text''), (''text'', t)]]"

definition error_envelope :: "string \<Rightarrow> jsval" where
  "error_envelope msg = JObj [(''isError'', JBool True), (''content'', text_content (JStr msg))]"

definition ok_envelope :: "jsval \<Rightarrow> jsval" where
  "ok_envelope t = JObj [(''content'', text_content t)]"

subsection \<open>Handlers\<close>

text \<open>
  What a run of a handler leaves behind: the envelope it returns, the client
  operations it called and the requests those issued.
\<close>

record handler_run =
  envelope :: jsval
  calls :: "client_call list"
  requests :: "http_request list"

text \<open>The \<open>try\<close> block of every handler: call the client, wrap the data or the error.\<close>

definition invoke :: "network \<Rightarrow> config \<Rightarrow> int \<Rightarrow> client_call \<Rightarrow> handler_run" where
  "invoke net cfg now c =
     (case client_op net cfg now c of
        (Inl e, reqs) \<Rightarrow>
          \<lparr>envelope = error_envelope (thrown_to_string e), calls = [c], requests = reqs\<rparr>
      | (Inr d, reqs) \<Rightarrow>
          \<lparr>envelope = ok_envelope (JSON_stringify_pretty d), calls = [c], requests = reqs\<rparr>)"

text \<open>
  A handler parses \<open>args || {}\<close> with the schema of its tool and returns the error
  envelope of a failed parse without calling the client. The handler of
  \<open>status_show\<close> has no schema and no parameter.
\<close>

definition tool_handler :: "network \<Rightarrow> config \<Rightarrow> int \<Rightarrow> tool \<Rightarrow> jsval \<Rightarrow> handler_run" where
  "tool_handler net cfg now t args =
     (case schema t of
        None \<Rightarrow> invoke net cfg now (call t args)
      | Some sch \<Rightarrow>
          (case safeParse sch (if truthy args then args else JObj []) of
             Inl issues \<Rightarrow>
               \<lparr>envelope = error_envelope (errorPrefix t @ error_message issues),
                calls = [], requests = []\<rparr>
           | Inr d \<Rightarrow> invoke net cfg now (call t d)))"

section \<open>Dispatch core\<close>

text \<open>
  To the dispatch core a handler is any function: called with the arguments it returns
  a value or throws one. The run also records the requests it issued.
\<close>

datatype outcome = Returned jsval | Threw thrown

type_synonym handler = "jsval \<Rightarrow> outcome \<times> http_request list"

text \<open>
  \<open>handlers\<close> is an object literal, so \<open>handlers[name]\<close> also finds what the literal
  inherits from \<open>Object.prototype\<close>. The inherited functions, called as the core
  calls a handler (one argument, no receiver): \<open>Object\<close> returns its argument when
  that is an object and a fresh object for \<open>undefined\<close> and \<open>null\<close> (a primitive is
  wrapped; the model returns the primitive, which has no \<open>content\<close> either);
  \<open>toString\<close> describes the missing receiver; \<open>isPrototypeOf\<close> answers \<open>false\<close> for a
  primitive; the others convert the missing receiver to an object, which throws.
  \<open>__proto__\<close> is inherited too, but is an object and no function.
\<close>

definition receiver_error :: thrown where
  "receiver_error = ErrorObj ''TypeError'' ''Cannot convert undefined or null to object''"

definition object_prototype_function :: "string \<Rightarrow> handler option" where
  "object_prototype_function k =
     (if k = ''constructor''
        then Some (\<lambda>a. (Returned (if a = JUndefined \<or> a = JNull then JObj [] else a), []))
      else if k = ''toString''
        then Some (\<lambda>a. (Returned (JStr ''[object Undefined]''), []))
      else if k = ''isPrototypeOf''
        then Some (\<lambda>a. (if truthy a \<and> typeof_object a then Threw receiver_error
                          else Returned (JBool False), []))
      else if k \<in> set [''toLocaleString'', ''valueOf'', ''hasOwnProperty'',
                        ''propertyIsEnumerable'', ''__defineGetter__'', ''__defineSetter__'',
                        ''__lookupGetter__'', ''__lookupSetter__'']
        then Some (\<lambda>a. (Threw receiver_error, []))
      else None)"

text \<open>
  \<open>handlers[name]\<close> where it is a function: an own property first, an inherited one
  otherwise.
\<close>

definition lookup_handler :: "(string \<times> handler) list \<Rightarrow> string \<Rightarrow> handler option" where
  "lookup_handler hs k =
     (case map_of hs k of Some h \<Rightarrow> Some h | None \<Rightarrow> object_prototype_function k)"

definition not_found_text :: "string \<Rightarrow> string" where
  "not_found_text k = ''Tool not found: '' @ k"

definition invalid_result_text :: "string \<Rightarrow> string" where
  "invalid_result_text k = ''Tool '' @ [CHR 0x22] @ k @ [CHR 0x22] @ '' returned invalid result''"

definition failed_text :: "string \<Rightarrow> thrown \<Rightarrow> string" where
  "failed_text k err =
     ''Tool '' @ [CHR 0x22] @ k @ [CHR 0x22] @ '' failed: '' @ thrown_to_string err"

text \<open>
  The \<open>CallTool\<close> request handler: the response and the requests issued on the way.
  \<open>arguments ?? {}\<close> replaces \<open>undefined\<close> and \<open>null\<close>.
\<close>

definition callTool :: "(string \<times> handler) list \<Rightarrow> string \<Rightarrow> jsval \<Rightarrow> jsval \<times> http_request list" where
  "callTool hs k arguments =
     (let args = (if arguments = JUndefined \<or> arguments = JNull then JObj [] else arguments) in
      case lookup_handler hs k of
        None \<Rightarrow> (error_envelope (not_found_text k), [])
      | Some h \<Rightarrow>
          (case h args of
             (Returned result, reqs) \<Rightarrow>
               if \<not> truthy result \<or> \<not> is_array (get_prop result ''content'')
               then (error_envelope (invalid_result_text k), reqs)
               else (result, reqs)
           | (Threw err, reqs) \<Rightarrow> (error_envelope (failed_text k err), reqs)))"

text \<open>The handlers of the server: one own property for each tool.\<close>

definition handlers :: "network \<Rightarrow> config \<Rightarrow> int \<Rightarrow> (string \<times> handler) list" where
  "handlers net cfg now =
     map (\<lambda>t. (name t,
               (\<lambda>a. (Returned (envelope (tool_handler net cfg now t a)),
                      requests (tool_handler net cfg now t a)))))
         toolDefs"

section \<open>Notions of the specification\<close>

text \<open>
  The arguments violate the declared shape of a tool when a declared field is missing
  though required, or is present with a value its declared type rejects (a wrong type,
  or a number outside the declared range).
\<close>

definition declared_fields :: "tool \<Rightarrow> (string \<times> ztype \<times> bool) list" where
  "declared_fields t = (case schema t of None \<Rightarrow> [] | Some sch \<Rightarrow> shape sch)"

definition field_violated :: "jsval \<Rightarrow> string \<times> ztype \<times> bool \<Rightarrow> bool" where
  "field_violated args f =
     (case f of (k, t, opt) \<Rightarrow>
        if get_prop args k = JUndefined then \<not> opt else check t (get_prop args k) \<noteq> None)"

definition violates_shape :: "tool \<Rightarrow> jsval \<Rightarrow> bool" where
  "violates_shape t args = list_ex (field_violated args) (declared_fields t)"

text \<open>
  A statement contains a verb as a whole word, in any letter case, when the verb stands
  at some position and neither the character before it nor the character after it is a
  word character.
\<close>

definition whole_word_at :: "string \<Rightarrow> nat \<Rightarrow> string \<Rightarrow> bool" where
  "whole_word_at s i v =
     (i + length v \<le> length s \<and>
      map to_lower (take (length v) (drop i s)) = v \<and>
      (i = 0 \<or> \<not> is_word_char (s ! (i - 1))) \<and>
      (i + length v = length s \<or> \<not> is_word_char (s ! (i + length v))))"

definition contains_forbidden_verb :: "string \<Rightarrow> bool" where
  "contains_forbidden_verb s =
     list_ex (\<lambda>i. list_ex (whole_word_at s i) forbidden_verbs) [0..<Suc (length s)]"

text \<open>
  The text under which a parameter goes out with a request: the value of the query
  parameter of a GET, the JSON text of the member of the body of a POST. A parameter
  that does not go out has none.
\<close>

definition sent_param :: "http_request \<Rightarrow> string \<Rightarrow> string option" where
  "sent_param req k =
     (case json req of
        None \<Rightarrow> map_of (searchParams req) k
      | Some payload \<Rightarrow>
          (if get_prop payload k = JUndefined then None
           else Some (JSON_stringify (get_prop payload k))))"

text \<open>
  The search and listing operations that take a row limit, as functions of the argument
  object: the name of the field, whether the operation falls back on the default row
  count, and the call.
\<close>

definition limit_operations :: "(string \<times> bool \<times> (jsval \<Rightarrow> client_call)) list" where
  "limit_operations =
     [(''rows'', True, PackageSearch),
      (''limit'', False, PackageList),
      (''limit'', False, CurrentPackageListWithResources),
      (''limit'', False, (\<lambda>a. PackageAutocomplete a JUndefined)),
      (''limit'', False, PackageActivityList),
      (''limit'', False, RecentlyChangedPackagesActivityList),
      (''limit'', False, OrganizationList),
      (''limit'', False, GroupList),
      (''limit'', False, (\<lambda>a. TagAutocomplete a JUndefined)),
      (''limit'', True, DatastoreSearch)]"

fun is_global_activity_feed :: "client_call \<Rightarrow> bool" where
  "is_global_activity_feed (RecentlyChangedPackagesActivityList a) = True"
| "is_global_activity_feed c = False"

text \<open>\<open>occurs p s\<close>: the text \<open>p\<close> stands somewhere in \<open>s\<close>.\<close>

fun occurs :: "string \<Rightarrow> string \<Rightarrow> bool" where
  "occurs p [] = starts_with p []"
| "occurs p (c # cs) = (starts_with p (c # cs) \<or> occurs p cs)"

text \<open>
  A member of the JSON text of an object: the quoted name, a colon, the JSON text of
  the value.
\<close>

definition body_member :: "string \<times> jsval \<Rightarrow> string" where
  "body_member m = (case m of (k, v) \<Rightarrow> json_quote k @ '':'' @ JSON_stringify v)"

text \<open>
  A request is built from a parameter mapping when it is the GET or the POST that the
  action wrappers make of a mapping with distinct names.
\<close>

definition built_from_mapping :: "config \<Rightarrow> http_request \<Rightarrow> bool" where
  "built_from_mapping cfg req =
     (\<exists>p params n. distinct (map fst params) \<and>
        (req = getAction cfg p params n \<or> req = postAction cfg p params n))"

text \<open>A configuration and a catalog for the examples.\<close>

definition example_config :: config where
  "example_config =
     \<lparr>BASE_URL = ''https://opendata.swiss/api/3/action'', ENABLE_SQL = True,
      TIMEOUT_MS = 15000, USER_AGENT = ''schwaizer-opendata-mcp/0.1.0 (+https://opendata.swiss)'',
      MAX_ROWS = 1000, DEFAULT_ROWS = 25\<rparr>"

definition example_network :: network where
  "example_network req = Inr (JObj [(''success'', JBool True), (''result'', JArr [])])"

text \<open>
  The text a row limit goes out with: the clamped number when the field is a number,
  none otherwise.
\<close>

definition limit_text :: "config \<Rightarrow> jsval \<Rightarrow> string option" where
  "limit_text cfg w =
     (case w of
        JNum v \<Rightarrow> Some (number_to_string (min (max 0 v) (MAX_ROWS cfg)))
      | _ \<Rightarrow> None)"

section \<open>Query parameters\<close>

lemma map_of_filter_other:
  "k' \<noteq> k \<Longrightarrow> map_of (filter (\<lambda>(a, b). a \<noteq> k) sp) k' = map_of sp k'"
  by (induction sp) auto

lemma map_of_sp_set: "map_of (sp_set k v sp) k' = (if k' = k then Some v else map_of sp k')"
  by (induction sp) (auto simp: map_of_filter_other)

lemma fold_build_lookup:
  fixes f :: "string \<times> jsval \<Rightarrow> (string \<times> string) list \<Rightarrow> (string \<times> string) list"
  defines "f \<equiv> (\<lambda>(k, v) sp.
             if v = JUndefined \<or> v = JNull then sp
             else sp_set k (js_to_string (encodeParam v)) sp)"
  shows "distinct (map fst args) \<Longrightarrow>
   map_of (fold f args acc) k =
   (case map_of args k of
      None \<Rightarrow> map_of acc k
    | Some v \<Rightarrow> if v = JUndefined \<or> v = JNull then map_of acc k
               else Some (js_to_string (encodeParam v)))"
proof (induction args arbitrary: acc)
  case Nil
  then show ?case by simp
next
  case (Cons a args)
  obtain k0 v0 where a: "a = (k0, v0)" by (cases a)
  from Cons.prems have d: "distinct (map fst args)" and n: "k0 \<notin> fst ` set args"
    by (auto simp: a)
  from n have none: "map_of args k0 = None" by (simp add: map_of_eq_None_iff)
  have step: "map_of (f (k0, v0) acc) k' =
      (if k' = k0 \<and> v0 \<noteq> JUndefined \<and> v0 \<noteq> JNull
       then Some (js_to_string (encodeParam v0)) else map_of acc k')" for k'
    by (simp add: f_def map_of_sp_set)
  have "map_of (fold f (a # args) acc) k = map_of (fold f args (f a acc)) k" by simp
  also have "\<dots> = (case map_of args k of
      None \<Rightarrow> map_of (f a acc) k
    | Some v \<Rightarrow> if v = JUndefined \<or> v = JNull then map_of (f a acc) k
               else Some (js_to_string (encodeParam v)))"
    by (rule Cons.IH [OF d])
  also have "\<dots> = (case map_of (a # args) k of
      None \<Rightarrow> map_of acc k
    | Some v \<Rightarrow> if v = JUndefined \<or> v = JNull then map_of acc k
               else Some (js_to_string (encodeParam v)))"
    by (cases "k = k0") (auto simp: a none step split: option.splits)
  finally show ?case .
qed

lemma buildSearchParams_lookup:
  "distinct (map fst args) \<Longrightarrow>
   map_of (buildSearchParams args) k =
   (case map_of args k of
      None \<Rightarrow> None
    | Some v \<Rightarrow> if v = JUndefined \<or> v = JNull then None
               else Some (js_to_string (encodeParam v)))"
  unfolding buildSearchParams_def by (simp add: fold_build_lookup split: option.splits)

lemma sent_param_getAction:
  "distinct (map fst params) \<Longrightarrow>
   sent_param (getAction cfg p params n) k =
   (case map_of params k of
      None \<Rightarrow> None
    | Some v \<Rightarrow> if v = JUndefined \<or> v = JNull then None
               else Some (js_to_string (encodeParam v)))"
  by (simp add: sent_param_def getAction_def buildSearchParams_lookup)

lemma sent_param_postAction:
  "sent_param (postAction cfg p payload n) k =
   (case map_of payload k of
      None \<Rightarrow> None
    | Some v \<Rightarrow> if v = JUndefined then None else Some (JSON_stringify v))"
  by (simp add: sent_param_def postAction_def split: option.splits)

lemma encodeParam_simps:
  "encodeParam (JNum n) = JNum n" "encodeParam (JStr s) = JStr s"
  "encodeParam (JBool b) = JBool b"
  "encodeParam (JArr xs) = JStr (JSON_stringify (JArr xs))"
  "encodeParam (JObj kvs) = JStr (JSON_stringify (JObj kvs))"
  by (simp_all add: encodeParam_def)

lemma JSON_stringify_num: "JSON_stringify (JNum n) = number_to_string n"
  by (simp add: JSON_stringify_def)

section \<open>Dataset search: the query and array filters\<close>

text \<open>
  Claim C7. In the request of the dataset search, a \<open>q\<close> that is absent (\<open>undefined\<close>
  or \<open>null\<close>), the empty string or the single character \<open>*\<close> goes out as the
  all-match token \<open>*:*\<close>; any other non-empty string goes out unchanged. The argument
  object may be omitted altogether.
\<close>

theorem dataset_search_query_normalized:
  assumes "a = JUndefined \<or> a = JObj kvs"
  shows "\<exists>req. packageSearch cfg a = Inr req \<and>
     (get_prop a ''q'' \<in> {JUndefined, JNull, JStr [], JStr ''*''} \<longrightarrow>
        sent_param req ''q'' = Some ''*:*'') \<and>
     (\<forall>s. get_prop a ''q'' = JStr s \<and> s \<noteq> [] \<and> s \<noteq> ''*'' \<longrightarrow>
        sent_param req ''q'' = Some s)"
  using assms
  by (auto simp: packageSearch_def default_args_def Let_def sent_param_getAction
                 normalizeQ_def encodeParam_simps)

theorem dataset_search_query_normalized_witness:
  "(\<exists>req. packageSearch example_config (JObj [(''q'', JStr ''water''), (''rows'', JNum 10)]) = Inr req
      \<and> sent_param req ''q'' = Some ''water'') \<and>
   (\<exists>req. packageSearch example_config (JObj [(''q'', JStr ''*'')]) = Inr req
      \<and> sent_param req ''q'' = Some ''*:*'')"
  using dataset_search_query_normalized [of "JObj [(''q'', JStr ''water''), (''rows'', JNum 10)]"
          "[(''q'', JStr ''water''), (''rows'', JNum 10)]" example_config]
        dataset_search_query_normalized [of "JObj [(''q'', JStr ''*'')]"
          "[(''q'', JStr ''*'')]" example_config]
  by simp

text \<open>
  Claim C10. In the dataset search the filter is normalized only when it is a string:
  an array-valued \<open>fq\<close> is left as it is by \<open>normalizeFq\<close> and goes out as the JSON
  text of that same array, so none of its elements is quoted or expanded.
\<close>

theorem array_filter_sent_unchanged:
  assumes "get_prop (JObj kvs) ''fq'' = JArr xs"
  shows "\<exists>req. packageSearch cfg (JObj kvs) = Inr req \<and>
           normalizeFq (JArr xs) = JArr xs \<and>
           sent_param req ''fq'' = Some (JSON_stringify (JArr xs))"
  using assms
  by (auto simp: packageSearch_def default_args_def Let_def sent_param_getAction
                 normalizeFq_def encodeParam_simps)

theorem array_filter_sent_unchanged_witness:
  \<open>\<exists>req. packageSearch example_config
            (JObj [(''fq'', JArr [JStr ''organization:foo-bar'', JStr ''language:de''])]) = Inr req \<and>
         sent_param req ''fq'' = Some ''["organization:foo-bar","language:de"]''\<close>
  using array_filter_sent_unchanged
          [of "[(''fq'', JArr [JStr ''organization:foo-bar'', JStr ''language:de''])]"
              "[JStr ''organization:foo-bar'', JStr ''language:de'']" example_config]
  by (auto simp: JSON_stringify_def json_wrap_def json_quote_def json_escape_def)

section \<open>Row limits\<close>

lemma sent_clamp_limit:
  "(if clamp_limit cfg w = JUndefined \<or> clamp_limit cfg w = JNull then None
    else Some (js_to_string (encodeParam (clamp_limit cfg w)))) = limit_text cfg w"
  by (cases w) (simp_all add: clamp_limit_def limit_text_def encodeParam_def)

lemmas limit_simps = default_args_def Let_def sent_param_getAction sent_clamp_limit

lemma packageList_limit:
  "\<exists>req. packageList cfg (JObj kvs) = Inr req \<and>
     sent_param req ''limit'' = limit_text cfg (get_prop (JObj kvs) ''limit'')"
  by (simp add: packageList_def limit_simps del: get_prop.simps)

lemma currentPackageListWithResources_limit:
  "\<exists>req. currentPackageListWithResources cfg (JObj kvs) = Inr req \<and>
     sent_param req ''limit'' = limit_text cfg (get_prop (JObj kvs) ''limit'')"
  by (simp add: currentPackageListWithResources_def limit_simps del: get_prop.simps)

lemma packageAutocomplete_limit:
  "\<exists>req. packageAutocomplete cfg (JObj kvs) l = Inr req \<and>
     sent_param req ''limit'' = limit_text cfg (get_prop (JObj kvs) ''limit'')"
  by (simp add: packageAutocomplete_def limit_simps del: get_prop.simps)

lemma packageAutocomplete_positional_limit:
  "\<exists>req. packageAutocomplete cfg (JStr q) l = Inr req \<and>
     sent_param req ''limit'' = limit_text cfg l"
  by (simp add: packageAutocomplete_def limit_simps field_or_self_def)

lemma packageActivityList_limit:
  "\<exists>req. packageActivityList cfg (JObj kvs) = Inr req \<and>
     sent_param req ''limit'' = limit_text cfg (get_prop (JObj kvs) ''limit'')"
  by (simp add: packageActivityList_def limit_simps del: get_prop.simps)

lemma recentlyChangedPackagesActivityList_limit:
  "\<exists>req. recentlyChangedPackagesActivityList cfg now (JObj kvs) = Inr req \<and>
     sent_param req ''limit'' = limit_text cfg (get_prop (JObj kvs) ''limit'')"
  by (simp add: recentlyChangedPackagesActivityList_def limit_simps del: get_prop.simps)

lemma organizationList_limit:
  "\<exists>req. organizationList cfg (JObj kvs) = Inr req \<and>
     sent_param req ''limit'' = limit_text cfg (get_prop (JObj kvs) ''limit'')"
  by (simp add: organizationList_def limit_simps del: get_prop.simps)

lemma groupList_limit:
  "\<exists>req. groupList cfg (JObj kvs) = Inr req \<and>
     sent_param req ''limit'' = limit_text cfg (get_prop (JObj kvs) ''limit'')"
  by (simp add: groupList_def limit_simps del: get_prop.simps)

lemma tagAutocomplete_limit:
  "\<exists>req. tagAutocomplete cfg (JObj kvs) l = Inr req \<and>
     sent_param req ''limit'' = limit_text cfg (get_prop (JObj kvs) ''limit'')"
  by (simp add: tagAutocomplete_def limit_simps del: get_prop.simps)

lemma tagAutocomplete_positional_limit:
  "\<exists>req. tagAutocomplete cfg (JStr q) l = Inr req \<and>
     sent_param req ''limit'' = limit_text cfg l"
  by (simp add: tagAutocomplete_def limit_simps field_or_self_def)

lemma packageSearch_rows:
  "\<exists>req. packageSearch cfg (JObj kvs) = Inr req \<and>
     sent_param req ''rows'' =
       (case get_prop (JObj kvs) ''rows'' of
          JNum v \<Rightarrow> Some (number_to_string (min (max 0 v) (MAX_ROWS cfg)))
        | _ \<Rightarrow> Some (number_to_string (DEFAULT_ROWS cfg)))"
  by (simp add: packageSearch_def limit_simps encodeParam_simps split: jsval.splits del: get_prop.simps)

lemma datastoreSearch_limit:
  "\<exists>req. datastoreSearch cfg (JObj kvs) = Inr req \<and>
     sent_param req ''limit'' =
       (case get_prop (JObj kvs) ''limit'' of
          JNum v \<Rightarrow> Some (number_to_string (min (max 0 v) (MAX_ROWS cfg)))
        | _ \<Rightarrow> Some (number_to_string (DEFAULT_ROWS cfg)))"
  by (simp add: datastoreSearch_def limit_simps sent_param_postAction encodeParam_simps JSON_stringify_num split: jsval.splits del: get_prop.simps)

lemma limit_operations_cases:
  assumes "(key, dflt, op) \<in> set limit_operations"
    and "P ''rows'' True PackageSearch"
    and "P ''limit'' False PackageList"
    and "P ''limit'' False CurrentPackageListWithResources"
    and "P ''limit'' False (\<lambda>a. PackageAutocomplete a JUndefined)"
    and "P ''limit'' False PackageActivityList"
    and "P ''limit'' False RecentlyChangedPackagesActivityList"
    and "P ''limit'' False OrganizationList"
    and "P ''limit'' False GroupList"
    and "P ''limit'' False (\<lambda>a. TagAutocomplete a JUndefined)"
    and "P ''limit'' True DatastoreSearch"
  shows "P key dflt op"
  using assms unfolding limit_operations_def by auto

lemma limit_text_simps:
  "limit_text cfg (JNum v) = Some (number_to_string (min (max 0 v) (MAX_ROWS cfg)))"
  "limit_text cfg JUndefined = None"
  by (simp_all add: limit_text_def)

text \<open>
  Claim C4. For every search or listing operation with a row limit and every numeric
  value \<open>v\<close> of that field, the request carries \<open>min (max 0 v) MAX_ROWS\<close>: a value
  above the maximum goes out as the maximum and a negative one as \<open>0\<close>, cut at the
  maximum afterwards. When the field is absent, the dataset search and the datastore
  row search send \<open>DEFAULT_ROWS\<close> and the other operations send no such field. The two
  autocomplete operations are covered in both calling conventions.
\<close>

theorem row_limit_clamped:
  "((key, dflt, op) \<in> set limit_operations \<longrightarrow>
      (\<exists>req. client_request cfg now (op (JObj kvs)) = Inr req \<and>
         (\<forall>v. get_prop (JObj kvs) key = JNum v \<longrightarrow>
            sent_param req key = Some (number_to_string (min (max 0 v) (MAX_ROWS cfg)))) \<and>
         (get_prop (JObj kvs) key = JUndefined \<longrightarrow>
            sent_param req key =
              (if dflt then Some (number_to_string (DEFAULT_ROWS cfg)) else None)))) \<and>
   (\<forall>c \<in> {PackageAutocomplete (JStr q) (JNum v), TagAutocomplete (JStr q) (JNum v)}.
      \<exists>req. client_request cfg now c = Inr req \<and>
        sent_param req ''limit'' = Some (number_to_string (min (max 0 v) (MAX_ROWS cfg)))) \<and>
   (\<forall>c \<in> {PackageAutocomplete (JStr q) JUndefined, TagAutocomplete (JStr q) JUndefined}.
      \<exists>req. client_request cfg now c = Inr req \<and> sent_param req ''limit'' = None)"
proof (intro conjI impI)
  assume m: "(key, dflt, op) \<in> set limit_operations"
  show "\<exists>req. client_request cfg now (op (JObj kvs)) = Inr req \<and>
         (\<forall>v. get_prop (JObj kvs) key = JNum v \<longrightarrow>
            sent_param req key = Some (number_to_string (min (max 0 v) (MAX_ROWS cfg)))) \<and>
         (get_prop (JObj kvs) key = JUndefined \<longrightarrow>
            sent_param req key =
              (if dflt then Some (number_to_string (DEFAULT_ROWS cfg)) else None))"
  proof (rule limit_operations_cases [OF m])
    show "\<exists>req. client_request cfg now (PackageSearch (JObj kvs)) = Inr req \<and>
         (\<forall>v. get_prop (JObj kvs) ''rows'' = JNum v \<longrightarrow>
            sent_param req ''rows'' = Some (number_to_string (min (max 0 v) (MAX_ROWS cfg)))) \<and>
         (get_prop (JObj kvs) ''rows'' = JUndefined \<longrightarrow>
            sent_param req ''rows'' =
              (if True then Some (number_to_string (DEFAULT_ROWS cfg)) else None))"
      using packageSearch_rows [of cfg kvs] by (auto simp del: get_prop.simps)
    show "\<exists>req. client_request cfg now (DatastoreSearch (JObj kvs)) = Inr req \<and>
         (\<forall>v. get_prop (JObj kvs) ''limit'' = JNum v \<longrightarrow>
            sent_param req ''limit'' = Some (number_to_string (min (max 0 v) (MAX_ROWS cfg)))) \<and>
         (get_prop (JObj kvs) ''limit'' = JUndefined \<longrightarrow>
            sent_param req ''limit'' =
              (if True then Some (number_to_string (DEFAULT_ROWS cfg)) else None))"
      using datastoreSearch_limit [of cfg kvs] by (auto simp del: get_prop.simps)
  qed (use packageList_limit [of cfg kvs] currentPackageListWithResources_limit [of cfg kvs]
         packageAutocomplete_limit [of cfg kvs JUndefined] packageActivityList_limit [of cfg kvs]
         recentlyChangedPackagesActivityList_limit [of cfg now kvs]
         organizationList_limit [of cfg kvs] groupList_limit [of cfg kvs]
         tagAutocomplete_limit [of cfg kvs JUndefined]
       in \<open>auto simp: limit_text_simps simp del: get_prop.simps\<close>)
next
  show "\<forall>c \<in> {PackageAutocomplete (JStr q) (JNum v), TagAutocomplete (JStr q) (JNum v)}.
      \<exists>req. client_request cfg now c = Inr req \<and>
        sent_param req ''limit'' = Some (number_to_string (min (max 0 v) (MAX_ROWS cfg)))"
    using packageAutocomplete_positional_limit [of cfg q "JNum v"]
      tagAutocomplete_positional_limit [of cfg q "JNum v"]
    by (simp add: limit_text_simps)
next
  show "\<forall>c \<in> {PackageAutocomplete (JStr q) JUndefined, TagAutocomplete (JStr q) JUndefined}.
      \<exists>req. client_request cfg now c = Inr req \<and> sent_param req ''limit'' = None"
    using packageAutocomplete_positional_limit [of cfg q JUndefined]
      tagAutocomplete_positional_limit [of cfg q JUndefined]
    by (simp add: limit_text_simps)
qed

lemma number_to_string_examples:
  "number_to_string 1000 = ''1000''" "number_to_string 0 = ''0''"
  "number_to_string 25 = ''25''" "number_to_string 10 = ''10''"
  by code_simp+

theorem row_limit_clamped_witness:
  "(\<exists>req. client_request example_config 0 (PackageSearch (JObj [(''rows'', JNum 5000)])) = Inr req \<and>
      sent_param req ''rows'' = Some ''1000'') \<and>
   (\<exists>req. client_request example_config 0 (PackageList (JObj [(''limit'', JNum (-5))])) = Inr req \<and>
      sent_param req ''limit'' = Some ''0'') \<and>
   (\<exists>req. client_request example_config 0 (DatastoreSearch (JObj [(''resource_id'', JStr ''r'')])) = Inr req \<and>
      sent_param req ''limit'' = Some ''25'') \<and>
   (\<exists>req. client_request example_config 0 (GroupList (JObj [])) = Inr req \<and>
      sent_param req ''limit'' = None)"
  using row_limit_clamped [of "''rows''" True PackageSearch example_config 0 "[(''rows'', JNum 5000)]"]
    row_limit_clamped [of "''limit''" False PackageList example_config 0 "[(''limit'', JNum (-5))]"]
    row_limit_clamped [of "''limit''" True DatastoreSearch example_config 0 "[(''resource_id'', JStr ''r'')]"]
    row_limit_clamped [of "''limit''" False GroupList example_config 0 "[]"]
  by (simp add: limit_operations_def example_config_def number_to_string_examples)

section \<open>Timeouts and the default time window\<close>

lemmas operation_defs =
  packageSearch_def packageShow_def packageList_def currentPackageListWithResources_def
  packageAutocomplete_def packageActivityList_def recentlyChangedPackagesActivityList_def
  organizationList_def organizationShow_def groupList_def groupShow_def tagList_def
  tagAutocomplete_def licenseList_def vocabularyList_def vocabularyShow_def tagShow_def
  resourceShow_def resourceViewShow_def resourceViewList_def statusShow_def helpShow_def
  datastoreInfo_def datastoreSearch_def datastoreSearchSql_def

lemma timeout_getAction:
  "timeout (getAction cfg p params n) = perRequestTimeout cfg n"
  "timeout (postAction cfg p params n) = perRequestTimeout cfg n"
  by (simp_all add: getAction_def postAction_def)

lemma request_timeout:
  "client_request cfg now c = Inr req \<Longrightarrow>
   timeout req = (if is_global_activity_feed c then TIMEOUT_MS cfg * 2 else TIMEOUT_MS cfg)"
  by (cases c)
     (auto simp: operation_defs Let_def timeout_getAction perRequestTimeout_def
           split: if_splits)

text \<open>
  Claim C9. The request of the global activity feed has twice the configured timeout and
  the request of every other operation, \<open>fetchResource\<close> included, has the configured
  timeout itself; and when the caller gives no \<open>since_time\<close>, the feed asks for the
  changes since the instant one hour (3600000 milliseconds) before the current time.
\<close>

theorem activity_feed_timeout_and_window:
  "(client_request cfg now c = Inr req \<longrightarrow>
      timeout req = (if is_global_activity_feed c then TIMEOUT_MS cfg * 2 else TIMEOUT_MS cfg)) \<and>
   (\<exists>r. fetchResource cfg url = Inr r \<and> timeout r = TIMEOUT_MS cfg) \<and>
   ((a = JUndefined \<or> a = JObj kvs) \<and> get_prop a ''since_time'' = JUndefined \<longrightarrow>
      (\<exists>r. client_request cfg now (RecentlyChangedPackagesActivityList a) = Inr r \<and>
           timeout r = TIMEOUT_MS cfg * 2 \<and>
           sent_param r ''since_time'' = Some (toISOString (now - 3600000))))"
proof (intro conjI impI)
  assume "client_request cfg now c = Inr req"
  then show "timeout req = (if is_global_activity_feed c then TIMEOUT_MS cfg * 2 else TIMEOUT_MS cfg)"
    by (rule request_timeout)
next
  show "\<exists>r. fetchResource cfg url = Inr r \<and> timeout r = TIMEOUT_MS cfg"
    by (simp add: fetchResource_def)
next
  assume "(a = JUndefined \<or> a = JObj kvs) \<and> get_prop a ''since_time'' = JUndefined"
  then show "\<exists>r. client_request cfg now (RecentlyChangedPackagesActivityList a) = Inr r \<and>
           timeout r = TIMEOUT_MS cfg * 2 \<and>
           sent_param r ''since_time'' = Some (toISOString (now - 3600000))"
    by (auto simp: recentlyChangedPackagesActivityList_def default_args_def Let_def
                   sent_param_getAction encodeParam_simps timeout_getAction perRequestTimeout_def)
qed

lemma toISOString_example: "toISOString 1699996400000 = ''2023-11-14T21:13:20.000Z''"
  by code_simp

theorem activity_feed_timeout_and_window_witness:
  "(\<exists>r. client_request example_config 1700000000000
          (RecentlyChangedPackagesActivityList (JObj [(''limit'', JNum 5)])) = Inr r \<and>
        timeout r = 30000 \<and>
        sent_param r ''since_time'' = Some ''2023-11-14T21:13:20.000Z'') \<and>
   timeout (getAction example_config ''package_list'' [] ''package_list'') = 15000"
  using activity_feed_timeout_and_window
      [of example_config 1700000000000 "PackageList (JObj [])"
          "getAction example_config ''package_list'' [] ''package_list''"
          "''https://opendata.swiss/de/data.csv''"
          "JObj [(''limit'', JNum 5)]" "[(''limit'', JNum 5)]"]
  by (simp add: example_config_def toISOString_example packageList_def default_args_def
                getAction_def buildSearchParams_def clamp_limit_def clamp_offset_def)

section \<open>The SQL guard\<close>

text \<open>
  The scan of the guard finds a match exactly when the statement contains a forbidden
  verb as a whole word.
\<close>

lemma to_lower_word: "to_lower c \<in> set ascii_lower \<Longrightarrow> is_word_char c"
proof (cases "map_of (zip ascii_upper ascii_lower) c")
  case None
  assume "to_lower c \<in> set ascii_lower"
  with None have "c \<in> set ascii_lower" by (simp add: to_lower_def)
  then show ?thesis by (simp add: is_word_char_def)
next
  case (Some l)
  then have "(c, l) \<in> set (zip ascii_upper ascii_lower)" by (rule map_of_SomeD)
  then have "c \<in> set ascii_upper" by (rule set_zip_leftD)
  then show ?thesis by (simp add: is_word_char_def)
qed

lemma forbidden_verbs_lower:
  "v \<in> set forbidden_verbs \<Longrightarrow> v \<noteq> [] \<and> set v \<subseteq> set ascii_lower"
  by (auto simp: forbidden_verbs_def ascii_lower_def)

lemma head_opt_rev_snoc: "head_opt (rev (p @ [c])) = Some c"
  by (simp add: head_opt_def)

lemma is_word_opt_last:
  "is_word_opt (head_opt (rev p)) = (p \<noteq> [] \<and> is_word_char (last p))"
  by (cases p rule: rev_cases) (simp_all add: head_opt_def is_word_opt_def)

lemma is_word_opt_head:
  "is_word_opt (head_opt s) = (s \<noteq> [] \<and> is_word_char (hd s))"
  by (cases s) (simp_all add: head_opt_def is_word_opt_def)

lemma verb_at_whole_word:
  assumes v: "v \<in> set forbidden_verbs"
  shows "verb_at (head_opt (rev p)) s v = whole_word_at (p @ s) (length p) v"
proof (cases "length v \<le> length s \<and> map to_lower (take (length v) s) = v")
  case False
  then show ?thesis by (auto simp: verb_at_def whole_word_at_def)
next
  case True
  then have len: "length v \<le> length s" and m: "map to_lower (take (length v) s) = v" by auto
  from forbidden_verbs_lower [OF v] have ne: "v \<noteq> []" and low: "set v \<subseteq> set ascii_lower" by auto
  let ?t = "take (length v) s"
  have tne: "?t \<noteq> []" using ne len by (cases s) auto
  have sne: "s \<noteq> []" using ne len by auto
  have allw: "\<forall>c \<in> set ?t. is_word_char c"
  proof
    fix c assume "c \<in> set ?t"
    then have "to_lower c \<in> set (map to_lower ?t)" by simp
    then have "to_lower c \<in> set ascii_lower" using low unfolding m by auto
    then show "is_word_char c" by (rule to_lower_word)
  qed
  have "hd s = hd ?t" using tne by (cases s) (auto simp: take_Cons' split: if_splits)
  then have hdw: "is_word_char (hd s)" using allw tne by (metis hd_in_set)
  have lastw: "is_word_char (last ?t)" using allw tne by (metis last_in_set)
  have w1: "is_word_opt (head_opt s)" using hdw sne by (simp add: is_word_opt_head)
  have w2: "is_word_opt (head_opt (rev ?t))" using lastw tne by (simp add: is_word_opt_last)
  have prev: "is_word_opt (head_opt (rev p)) =
      (\<not> (length p = 0 \<or> \<not> is_word_char ((p @ s) ! (length p - 1))))"
  proof (cases p rule: rev_cases)
    case Nil
    then show ?thesis by (simp add: head_opt_def is_word_opt_def)
  next
    case (snoc ys y)
    then show ?thesis by (simp add: head_opt_def is_word_opt_def nth_append)
  qed
  have nxt: "is_word_opt (head_opt (drop (length v) s)) =
      (\<not> (length p + length v = length (p @ s) \<or>
           \<not> is_word_char ((p @ s) ! (length p + length v))))"
  proof (cases "length v < length s")
    case True
    then show ?thesis
      by (simp add: is_word_opt_head hd_drop_conv_nth nth_append_length_plus)
  next
    case False
    with len have "length v = length s" by simp
    then show ?thesis by (simp add: is_word_opt_head)
  qed
  have b1: "word_boundary (head_opt (rev p)) (head_opt s) =
      (length p = 0 \<or> \<not> is_word_char ((p @ s) ! (length p - 1)))"
    unfolding word_boundary_def prev using w1 by simp
  have b2: "word_boundary (head_opt (rev ?t)) (head_opt (drop (length v) s)) =
      (length p + length v = length (p @ s) \<or> \<not> is_word_char ((p @ s) ! (length p + length v)))"
    unfolding word_boundary_def nxt using w2 by simp
  show ?thesis
    using len m b1 b2 by (simp add: verb_at_def whole_word_at_def)
qed

lemma forbidden_test_from_iff:
  "forbidden_test_from (head_opt (rev p)) s =
     (\<exists>i. length p \<le> i \<and> i \<le> length p + length s \<and>
          (\<exists>v \<in> set forbidden_verbs. whole_word_at (p @ s) i v))"
proof (induction s arbitrary: p)
  case Nil
  have "\<not> whole_word_at p i v" if "v \<in> set forbidden_verbs" "length p \<le> i" for i v
    using forbidden_verbs_lower [OF that(1)] that(2) by (auto simp: whole_word_at_def)
  then show ?case by auto
next
  case (Cons c cs)
  have here: "list_ex (verb_at (head_opt (rev p)) (c # cs)) forbidden_verbs =
      (\<exists>v \<in> set forbidden_verbs. whole_word_at (p @ c # cs) (length p) v)"
    by (simp add: list_ex_iff verb_at_whole_word)
  have later: "forbidden_test_from (Some c) cs =
      (\<exists>i. Suc (length p) \<le> i \<and> i \<le> Suc (length p) + length cs \<and>
          (\<exists>v \<in> set forbidden_verbs. whole_word_at (p @ c # cs) i v))"
    using Cons.IH [of "p @ [c]"] by (simp add: head_opt_def)
  have split: "(\<exists>i. length p \<le> i \<and> i \<le> length p + length (c # cs) \<and> Q i) =
      (Q (length p) \<or> (\<exists>i. Suc (length p) \<le> i \<and> i \<le> Suc (length p) + length cs \<and> Q i))"
    (is "?L = ?R") for Q
  proof
    assume ?L
    then obtain i where i: "length p \<le> i" "i \<le> length p + length (c # cs)" "Q i" by blast
    show ?R
    proof (cases "i = length p")
      case True
      with i show ?thesis by simp
    next
      case False
      with i have "Suc (length p) \<le> i" "i \<le> Suc (length p) + length cs" by simp_all
      with i show ?thesis by blast
    qed
  next
    assume ?R
    then show ?L
    proof
      assume "Q (length p)"
      then show ?L by (intro exI [of _ "length p"]) simp
    next
      assume "\<exists>i. Suc (length p) \<le> i \<and> i \<le> Suc (length p) + length cs \<and> Q i"
      then obtain i where "Suc (length p) \<le> i" "i \<le> Suc (length p) + length cs" "Q i" by blast
      then show ?L by (intro exI [of _ i]) simp
    qed
  qed
  show ?case
    unfolding forbidden_test_from.simps here later split ..
qed

lemma forbidden_test_iff: "forbidden_test s = contains_forbidden_verb s"
proof -
  have "forbidden_test s =
      (\<exists>i. i \<le> length s \<and> (\<exists>v \<in> set forbidden_verbs. whole_word_at s i v))"
    using forbidden_test_from_iff [of "[]" s] by (simp add: forbidden_test_def head_opt_def)
  also have "\<dots> = contains_forbidden_verb s"
    unfolding contains_forbidden_verb_def list_ex_iff
    by (auto simp: less_Suc_eq_le simp del: upt_Suc)
  finally show ?thesis .
qed

text \<open>
  Claim C3. The SQL passthrough: with the configuration flag off it fails, for every
  argument, with the disabled-by-configuration error and issues no request. For a
  statement given as a string or as the \<open>sql\<close> field of an object: with the flag on and a
  statement that contains one of the eight verbs as a whole word in any letter case it
  fails with the forbidden-verb error and issues no request; with the flag on and a
  statement that contains none of them it issues exactly one request, a POST to
  \<open>datastore_search_sql\<close> whose payload is the statement.
\<close>

theorem sql_guard:
  assumes "a = JStr s \<or> (\<exists>kvs. a = JObj kvs \<and> get_prop a ''sql'' = JStr s)"
  shows "(\<not> ENABLE_SQL cfg \<longrightarrow>
            client_op net cfg now (DatastoreSearchSql b) = (Inl sql_disabled, [])) \<and>
         (ENABLE_SQL cfg \<and> contains_forbidden_verb s \<longrightarrow>
            client_op net cfg now (DatastoreSearchSql a) = (Inl sql_forbidden, [])) \<and>
         (ENABLE_SQL cfg \<and> \<not> contains_forbidden_verb s \<longrightarrow>
            (\<exists>req. snd (client_op net cfg now (DatastoreSearchSql a)) = [req] \<and>
                   verb req = POST \<and> path req = ''datastore_search_sql'' \<and>
                   json req = Some (JObj [(''sql'', JStr s)])))"
proof -
  have sql: "field_or_self a ''sql'' = JStr s"
    using assms by (auto simp: field_or_self_def)
  have off: "\<not> ENABLE_SQL cfg \<Longrightarrow>
      client_op net cfg now (DatastoreSearchSql b) = (Inl sql_disabled, [])"
    by (simp add: client_op_def datastoreSearchSql_def Let_def)
  have on: "ENABLE_SQL cfg \<Longrightarrow> contains_forbidden_verb s \<Longrightarrow>
      client_op net cfg now (DatastoreSearchSql a) = (Inl sql_forbidden, [])"
    by (simp add: client_op_def datastoreSearchSql_def sql Let_def forbidden_test_iff)
  have pass: "ENABLE_SQL cfg \<Longrightarrow> \<not> contains_forbidden_verb s \<Longrightarrow>
      \<exists>req. snd (client_op net cfg now (DatastoreSearchSql a)) = [req] \<and>
             verb req = POST \<and> path req = ''datastore_search_sql'' \<and>
             json req = Some (JObj [(''sql'', JStr s)])"
    by (auto simp: client_op_def datastoreSearchSql_def sql Let_def forbidden_test_iff
                   postAction_def split: sum.splits)
  from off on pass show ?thesis by blast
qed

lemma contains_forbidden_verb_examples:
  "contains_forbidden_verb ''DROP TABLE x''"
  "contains_forbidden_verb ''select 1; Delete from t''"
  "\<not> contains_forbidden_verb ''SELECT * FROM x''"
  "\<not> contains_forbidden_verb ''select dropped, created_at from t''"
  by code_simp+

theorem sql_guard_witness:
  \<open>client_op example_network (example_config\<lparr>ENABLE_SQL := False\<rparr>) 0
      (DatastoreSearchSql (JStr ''SELECT * FROM x'')) = (Inl sql_disabled, []) \<and>
   client_op example_network example_config 0
      (DatastoreSearchSql (JStr ''DROP TABLE x'')) = (Inl sql_forbidden, []) \<and>
   client_op example_network example_config 0
      (DatastoreSearchSql (JObj [(''sql'', JStr ''select 1; Delete from t'')])) = (Inl sql_forbidden, []) \<and>
   (\<exists>req. snd (client_op example_network example_config 0
                 (DatastoreSearchSql (JStr ''SELECT * FROM x''))) = [req] \<and>
          verb req = POST \<and> path req = ''datastore_search_sql'' \<and>
          request_body req = Some ''{"sql":"SELECT * FROM x"}'')\<close>
  using sql_guard [where a = "JStr ''SELECT * FROM x''" and s = "''SELECT * FROM x''"
                     and b = "JStr ''SELECT * FROM x''"
                     and cfg = "example_config\<lparr>ENABLE_SQL := False\<rparr>"
                     and net = example_network and now = 0]
        sql_guard [where a = "JStr ''DROP TABLE x''" and s = "''DROP TABLE x''"
                     and b = JUndefined and cfg = example_config
                     and net = example_network and now = 0]
        sql_guard [where a = "JObj [(''sql'', JStr ''select 1; Delete from t'')]"
                     and s = "''select 1; Delete from t''"
                     and b = JUndefined and cfg = example_config
                     and net = example_network and now = 0]
        sql_guard [where a = "JStr ''SELECT * FROM x''" and s = "''SELECT * FROM x''"
                     and b = JUndefined and cfg = example_config
                     and net = example_network and now = 0]
  by (auto simp: example_config_def contains_forbidden_verb_examples request_body_def
                 JSON_stringify_def json_wrap_def json_quote_def json_escape_def)

section \<open>Filter normalization\<close>

lemma starts_with_take: "starts_with p s = (take (length p) s = p)"
proof (induction p arbitrary: s)
  case Nil
  then show ?case by simp
next
  case (Cons a p)
  then show ?case by (cases s) auto
qed

lemma starts_with_nth:
  assumes "starts_with p s" and "j < length p"
  shows "j < length s \<and> s ! j = p ! j"
proof -
  from assms(1) have t: "take (length p) s = p" by (simp add: starts_with_take)
  then have "length p \<le> length s" by (metis length_take min.cobounded1 min.commute)
  with assms(2) have "j < length s" by simp
  moreover have "s ! j = p ! j" using t assms(2) by (metis nth_take)
  ultimately show ?thesis by simp
qed

lemma starts_with_prefix: "starts_with (a @ b) s \<Longrightarrow> starts_with a s"
  by (induction a arbitrary: s) (auto elim: starts_with.elims)

lemma starts_with_append_long:
  "length p \<le> length x \<Longrightarrow> starts_with p (x @ r) = starts_with p x"
  by (simp add: starts_with_take)

lemma occurs_drop: "starts_with p (drop i s) \<Longrightarrow> occurs p s"
proof (induction s arbitrary: i)
  case Nil
  then show ?case by simp
next
  case (Cons c cs)
  then show ?case by (cases i) auto
qed

lemma no_match_unquoted:
  "\<not> starts_with ''organization:'' s \<Longrightarrow> match_unquoted_org p s = None"
  by (simp add: match_unquoted_org_def)

lemma no_match_quoted:
  "\<not> starts_with ''organization:'' s \<Longrightarrow> match_quoted_org p s = None"
  using starts_with_prefix [of "''organization:''" "[CHR 0x22]" s]
  by (auto simp: match_quoted_org_def)

lemma quote_org_skip:
  assumes "\<forall>i<length pre. \<not> starts_with ''organization:'' (drop i pre @ rest)"
  shows "quote_org prev (pre @ rest) =
         pre @ quote_org (if pre = [] then prev else Some (last pre)) rest"
  using assms
proof (induction pre arbitrary: prev)
  case Nil
  then show ?case by simp
next
  case (Cons c cs)
  from Cons.prems have "\<not> starts_with ''organization:'' (drop 0 (c # cs) @ rest)" by blast
  then have none: "match_unquoted_org prev (c # cs @ rest) = None"
    by (simp add: no_match_unquoted)
  have "\<forall>i<length cs. \<not> starts_with ''organization:'' (drop i cs @ rest)"
  proof (intro allI impI)
    fix i assume "i < length cs"
    then have "Suc i < length (c # cs)" by simp
    with Cons.prems have "\<not> starts_with ''organization:'' (drop (Suc i) (c # cs) @ rest)" by blast
    then show "\<not> starts_with ''organization:'' (drop i cs @ rest)" by simp
  qed
  from Cons.IH [OF this, of "Some c"] none show ?case by simp
qed

lemma expand_org_skip:
  assumes "\<forall>i<length pre. \<not> starts_with ''organization:'' (drop i pre @ rest)"
  shows "expand_org prev (pre @ rest) =
         pre @ expand_org (if pre = [] then prev else Some (last pre)) rest"
  using assms
proof (induction pre arbitrary: prev)
  case Nil
  then show ?case by simp
next
  case (Cons c cs)
  from Cons.prems have "\<not> starts_with ''organization:'' (drop 0 (c # cs) @ rest)" by blast
  then have none: "match_quoted_org prev (c # cs @ rest) = None"
    by (simp add: no_match_quoted)
  have "\<forall>i<length cs. \<not> starts_with ''organization:'' (drop i cs @ rest)"
  proof (intro allI impI)
    fix i assume "i < length cs"
    then have "Suc i < length (c # cs)" by simp
    with Cons.prems have "\<not> starts_with ''organization:'' (drop (Suc i) (c # cs) @ rest)" by blast
    then show "\<not> starts_with ''organization:'' (drop i cs @ rest)" by simp
  qed
  from Cons.IH [OF this, of "Some c"] none show ?case by simp
qed

text \<open>No occurrence starts in a region that contains none, if none can straddle its end.\<close>

lemma clear_region:
  assumes no: "\<not> occurs ''organization:'' x"
    and straddle: "\<And>k. k < 13 \<Longrightarrow> 0 < k \<Longrightarrow>
        \<not> (k \<le> length x \<and> starts_with ''organization:'' (drop (length x - k) x @ rest))"
  shows "\<forall>i<length x. \<not> starts_with ''organization:'' (drop i x @ rest)"
proof (intro allI impI notI)
  fix i assume i: "i < length x" and s: "starts_with ''organization:'' (drop i x @ rest)"
  show False
  proof (cases "13 \<le> length (drop i x)")
    case True
    then have "starts_with ''organization:'' (drop i x)"
      using s starts_with_append_long [of "''organization:''" "drop i x" rest] by simp
    then show False using no occurs_drop by blast
  next
    case False
    let ?k = "length x - i"
    have "?k < 13" "0 < ?k" "?k \<le> length x" using False i by simp_all
    moreover have "drop (length x - ?k) x = drop i x" using i by simp
    ultimately show False using straddle [of ?k] s by simp
  qed
qed

lemma clear_before_end:
  assumes "\<not> occurs ''organization:'' x"
  shows "\<forall>i<length x. \<not> starts_with ''organization:'' (drop i x @ [])"
proof (rule clear_region [OF assms])
  fix k :: nat assume "k < 13" "0 < k"
  show "\<not> (k \<le> length x \<and> starts_with ''organization:'' (drop (length x - k) x @ []))"
  proof
    assume a: "k \<le> length x \<and> starts_with ''organization:'' (drop (length x - k) x @ [])"
    then have "starts_with ''organization:'' (drop (length x - k) x)" by simp
    then have "12 < length (drop (length x - k) x)"
      using starts_with_nth [of "''organization:''" "drop (length x - k) x" 12] by simp
    with a \<open>k < 13\<close> show False by simp
  qed
qed

lemma clear_before_token:
  assumes "\<not> occurs ''organization:'' x"
  shows "\<forall>i<length x. \<not> starts_with ''organization:'' (drop i x @ ''organization:'' @ r)"
proof (rule clear_region [OF assms])
  fix k :: nat assume k: "k < 13" "0 < k"
  show "\<not> (k \<le> length x \<and>
      starts_with ''organization:'' (drop (length x - k) x @ ''organization:'' @ r))"
  proof
    assume a: "k \<le> length x \<and>
      starts_with ''organization:'' (drop (length x - k) x @ ''organization:'' @ r)"
    let ?y = "drop (length x - k) x"
    have len: "length ?y = k" using a by simp
    from a have "(?y @ ''organization:'' @ r) ! 12 = ''organization:'' ! 12"
      using starts_with_nth [of "''organization:''" _ 12] by simp
    then have "(''organization:'' @ r) ! (12 - k) = CHR '':''"
      using len k by (simp add: nth_append)
    moreover have "12 - k < 12" using k by simp
    then have "(''organization:'' @ r) ! (12 - k) \<in> set ''organization''"
      by (auto simp: less_Suc_eq numeral_eq_Suc)
    ultimately show False by auto
  qed
qed

lemma clear_before_quote:
  assumes "\<not> occurs ''organization:'' x"
  shows "\<forall>i<length x. \<not> starts_with ''organization:'' (drop i x @ CHR 0x22 # r)"
proof (rule clear_region [OF assms])
  fix k :: nat assume k: "k < 13" "0 < k"
  show "\<not> (k \<le> length x \<and>
      starts_with ''organization:'' (drop (length x - k) x @ CHR 0x22 # r))"
  proof
    assume a: "k \<le> length x \<and>
      starts_with ''organization:'' (drop (length x - k) x @ CHR 0x22 # r)"
    let ?y = "drop (length x - k) x"
    have len: "length ?y = k" using a by simp
    from a k have "(?y @ CHR 0x22 # r) ! k = ''organization:'' ! k"
      using starts_with_nth [of "''organization:''" _ k] by simp
    then have "''organization:'' ! k = CHR 0x22"
      using len by (simp add: nth_append)
    moreover have "''organization:'' ! k \<in> set ''organization:''"
      using k by (intro nth_mem) simp
    ultimately show False by auto
  qed
qed

lemma prev_boundary:
  "pre = [] \<or> \<not> is_word_char (last pre) \<Longrightarrow>
   word_boundary (if pre = [] then None else Some (last pre)) (Some CHR ''o'')"
  by (auto simp: word_boundary_def is_word_opt_def is_word_char_def ascii_lower_def)

lemma takeWhile_value:
  assumes "\<forall>c \<in> set v. P c" and "post = [] \<or> \<not> P (hd post)"
  shows "takeWhile P (v @ post) = v" and "dropWhile P (v @ post) = post"
proof -
  have t: "takeWhile P post = []" and d: "dropWhile P post = post"
    using assms(2) by (cases post; simp)+
  show "takeWhile P (v @ post) = v" using assms(1) t by (simp add: takeWhile_append2)
  show "dropWhile P (v @ post) = post" using assms(1) d by (simp add: dropWhile_append2)
qed

lemma match_unquoted_token:
  assumes b: "word_boundary prev (Some CHR ''o'')"
    and val: "val \<noteq> []" "\<forall>c \<in> set val. \<not> is_space c \<and> c \<noteq> CHR 0x22"
    and post: "post = [] \<or> is_space (hd post)"
  shows "match_unquoted_org prev (''organization:'' @ val @ post) = Some (val, post)"
proof -
  obtain c cs where v: "val = c # cs" using val(1) by (cases val) auto
  have "takeWhile (\<lambda>x. \<not> is_space x) (cs @ post) = cs"
    and "dropWhile (\<lambda>x. \<not> is_space x) (cs @ post) = post"
    using takeWhile_value [of cs "\<lambda>x. \<not> is_space x" post] val(2) post by (auto simp: v)
  then show ?thesis
    using b val(2) by (simp add: match_unquoted_org_def head_opt_def v)
qed

lemma match_quoted_token:
  assumes b: "word_boundary prev (Some CHR ''o'')"
    and val: "val \<noteq> []" "CHR 0x22 \<notin> set val"
  shows "match_quoted_org prev (''organization:'' @ [CHR 0x22] @ val @ [CHR 0x22] @ post) =
         Some (val, post)"
proof -
  have ne: "\<forall>c \<in> set val. c \<noteq> CHR 0x22" using val(2) by auto
  have "takeWhile (\<lambda>x. x \<noteq> CHR 0x22) (val @ CHR 0x22 # post) = val"
    and "dropWhile (\<lambda>x. x \<noteq> CHR 0x22) (val @ CHR 0x22 # post) = CHR 0x22 # post"
    using ne by (simp_all add: takeWhile_append2 dropWhile_append2)
  then show ?thesis
    using b val(1) by (simp add: match_quoted_org_def head_opt_def Let_def)
qed

lemma quote_org_clear: "\<not> occurs ''organization:'' x \<Longrightarrow> quote_org prev x = x"
  using quote_org_skip [OF clear_before_end, of x prev] by simp

lemma expand_org_clear: "\<not> occurs ''organization:'' x \<Longrightarrow> expand_org prev x = x"
  using expand_org_skip [OF clear_before_end, of x prev] by simp

lemma expand_quoted_token:
  assumes pre: "\<not> occurs ''organization:'' pre" "pre = [] \<or> \<not> is_word_char (last pre)"
    and post: "\<not> occurs ''organization:'' post"
    and val: "val \<noteq> []" "CHR 0x22 \<notin> set val"
  shows "expand_org None (pre @ ''organization:'' @ [CHR 0x22] @ val @ [CHR 0x22] @ post) =
         pre @ org_or_publisher val @ post"
proof -
  let ?tok = "''organization:'' @ [CHR 0x22] @ val @ [CHR 0x22] @ post"
  let ?prev = "if pre = [] then None else Some (last pre)"
  have "expand_org None (pre @ ?tok) = pre @ expand_org ?prev ?tok"
    using expand_org_skip
      [OF clear_before_token [OF pre(1), of "[CHR 0x22] @ val @ [CHR 0x22] @ post"], of None]
    by simp
  also have "expand_org ?prev ?tok = org_or_publisher val @ expand_org (Some (CHR 0x22)) post"
    using match_quoted_token [OF prev_boundary [OF pre(2)] val, of post] by simp
  also have "expand_org (Some (CHR 0x22)) post = post" by (rule expand_org_clear [OF post])
  finally show ?thesis .
qed

lemma quote_unquoted_token:
  assumes pre: "\<not> occurs ''organization:'' pre" "pre = [] \<or> \<not> is_word_char (last pre)"
    and post: "\<not> occurs ''organization:'' post" "post = [] \<or> is_space (hd post)"
    and val: "val \<noteq> []" "\<forall>c \<in> set val. \<not> is_space c \<and> c \<noteq> CHR 0x22"
  shows "quote_org None (pre @ ''organization:'' @ val @ post) =
         pre @ ''organization:'' @ [CHR 0x22] @ val @ [CHR 0x22] @ post"
proof -
  let ?tok = "''organization:'' @ val @ post"
  let ?prev = "if pre = [] then None else Some (last pre)"
  have "quote_org None (pre @ ?tok) = pre @ quote_org ?prev ?tok"
    using quote_org_skip [OF clear_before_token [OF pre(1), of "val @ post"], of None] by simp
  also have "quote_org ?prev ?tok =
      ''organization:'' @ [CHR 0x22] @ val @ [CHR 0x22] @ quote_org (head_opt (rev val)) post"
    using match_unquoted_token [OF prev_boundary [OF pre(2)] val post(2)] by simp
  also have "quote_org (head_opt (rev val)) post = post" by (rule quote_org_clear [OF post(1)])
  finally show ?thesis by simp
qed

lemma quote_quoted_token:
  assumes pre: "\<not> occurs ''organization:'' pre"
    and post: "\<not> occurs ''organization:'' post"
    and val: "\<not> occurs ''organization:'' val"
  shows "quote_org None (pre @ ''organization:'' @ [CHR 0x22] @ val @ [CHR 0x22] @ post) =
         pre @ ''organization:'' @ [CHR 0x22] @ val @ [CHR 0x22] @ post"
proof -
  let ?tok = "''organization:'' @ [CHR 0x22] @ val @ [CHR 0x22] @ post"
  let ?prev = "if pre = [] then None else Some (last pre)"
  have 1: "quote_org None (pre @ ?tok) = pre @ quote_org ?prev ?tok"
    using quote_org_skip
      [OF clear_before_token [OF pre(1), of "[CHR 0x22] @ val @ [CHR 0x22] @ post"], of None]
    by simp
  have 2: "quote_org p ?tok =
      ''organization:'' @ [CHR 0x22] @ quote_org (Some (CHR 0x22)) (val @ CHR 0x22 # post)" for p
    by (simp add: match_unquoted_org_def)
  have 3: "quote_org (Some (CHR 0x22)) (val @ CHR 0x22 # post) =
      val @ quote_org (if val = [] then Some (CHR 0x22) else Some (last val)) (CHR 0x22 # post)"
    by (rule quote_org_skip [OF clear_before_quote [OF val]])
  have 4: "quote_org p (CHR 0x22 # post) = CHR 0x22 # post" for p
    by (simp add: match_unquoted_org_def quote_org_clear [OF post])
  show ?thesis unfolding 1 2 3 4 by simp
qed

lemma packageSearch_fq:
  assumes "get_prop (JObj kvs) ''fq'' = JStr s"
  shows "\<exists>req. packageSearch cfg (JObj kvs) = Inr req \<and>
     sent_param req ''fq'' = Some (expand_org None (quote_org None s))"
  using assms
  by (auto simp: packageSearch_def default_args_def Let_def sent_param_getAction
                 normalizeFq_def encodeParam_simps)

text \<open>
  Claim C6. In a string-valued \<open>fq\<close> of the dataset search, an organization token with
  an unquoted value (not empty, without white space or quote, ending at white space or
  at the end of the filter) goes out quoted and expanded to
  \<open>(organization:"v" OR publisher:"v")\<close>; a token whose value is already quoted goes
  out with the same expansion and is not quoted a second time. The token stands at a
  word boundary, and the text around it (and a quoted value) holds no further
  \<open>organization:\<close>; that text goes out unchanged.
\<close>

theorem organization_filter_normalized:
  assumes pre: "\<not> occurs ''organization:'' pre" "pre = [] \<or> \<not> is_word_char (last pre)"
    and post: "\<not> occurs ''organization:'' post"
    and val: "val \<noteq> []" "CHR 0x22 \<notin> set val"
  shows "((\<forall>c \<in> set val. \<not> is_space c) \<and> (post = [] \<or> is_space (hd post)) \<and>
          get_prop (JObj kvs) ''fq'' = JStr (pre @ ''organization:'' @ val @ post) \<longrightarrow>
            (\<exists>req. packageSearch cfg (JObj kvs) = Inr req \<and>
                   sent_param req ''fq'' = Some (pre @ org_or_publisher val @ post))) \<and>
         (\<not> occurs ''organization:'' val \<and>
          get_prop (JObj kvs) ''fq'' =
            JStr (pre @ ''organization:'' @ [CHR 0x22] @ val @ [CHR 0x22] @ post) \<longrightarrow>
            (\<exists>req. packageSearch cfg (JObj kvs) = Inr req \<and>
                   sent_param req ''fq'' = Some (pre @ org_or_publisher val @ post)))"
proof (intro conjI impI)
  assume a: "(\<forall>c \<in> set val. \<not> is_space c) \<and> (post = [] \<or> is_space (hd post)) \<and>
          get_prop (JObj kvs) ''fq'' = JStr (pre @ ''organization:'' @ val @ post)"
  then have v: "\<forall>c \<in> set val. \<not> is_space c \<and> c \<noteq> CHR 0x22" using val(2) by auto
  have "quote_org None (pre @ ''organization:'' @ val @ post) =
        pre @ ''organization:'' @ [CHR 0x22] @ val @ [CHR 0x22] @ post"
    using a by (intro quote_unquoted_token pre post val(1) v) simp
  then have "expand_org None (quote_org None (pre @ ''organization:'' @ val @ post)) =
        pre @ org_or_publisher val @ post"
    using expand_quoted_token [OF pre post val] by simp
  then show "\<exists>req. packageSearch cfg (JObj kvs) = Inr req \<and>
                   sent_param req ''fq'' = Some (pre @ org_or_publisher val @ post)"
    using packageSearch_fq [of kvs "pre @ ''organization:'' @ val @ post" cfg] a by simp
next
  assume a: "\<not> occurs ''organization:'' val \<and>
          get_prop (JObj kvs) ''fq'' =
            JStr (pre @ ''organization:'' @ [CHR 0x22] @ val @ [CHR 0x22] @ post)"
  have "quote_org None (pre @ ''organization:'' @ [CHR 0x22] @ val @ [CHR 0x22] @ post) =
        pre @ ''organization:'' @ [CHR 0x22] @ val @ [CHR 0x22] @ post"
    using a by (intro quote_quoted_token pre post) simp
  then have "expand_org None
        (quote_org None (pre @ ''organization:'' @ [CHR 0x22] @ val @ [CHR 0x22] @ post)) =
        pre @ org_or_publisher val @ post"
    using expand_quoted_token [OF pre post val] by simp
  then show "\<exists>req. packageSearch cfg (JObj kvs) = Inr req \<and>
                   sent_param req ''fq'' = Some (pre @ org_or_publisher val @ post)"
    using packageSearch_fq
      [of kvs "pre @ ''organization:'' @ [CHR 0x22] @ val @ [CHR 0x22] @ post" cfg] a
    by simp
qed

theorem organization_filter_normalized_witness:
  \<open>(\<exists>req. packageSearch example_config (JObj [(''fq'', JStr ''organization:foo-bar'')]) = Inr req \<and>
      sent_param req ''fq'' = Some ''(organization:"foo-bar" OR publisher:"foo-bar")'') \<and>
   (\<exists>req. packageSearch example_config (JObj [(''fq'', JStr ''organization:"foo-bar"'')]) = Inr req \<and>
      sent_param req ''fq'' = Some ''(organization:"foo-bar" OR publisher:"foo-bar")'') \<and>
   (\<exists>req. packageSearch example_config
        (JObj [(''fq'', JStr ''language:de organization:foo-bar res_format:CSV'')]) = Inr req \<and>
      sent_param req ''fq'' =
        Some ''language:de (organization:"foo-bar" OR publisher:"foo-bar") res_format:CSV'')\<close>
  using organization_filter_normalized
      [of "[]" "[]" "''foo-bar''" "[(''fq'', JStr ''organization:foo-bar'')]" example_config]
    organization_filter_normalized
      [of "[]" "[]" "''foo-bar''" \<open>[(''fq'', JStr ''organization:"foo-bar"'')]\<close> example_config]
    organization_filter_normalized
      [of "''language:de ''" "'' res_format:CSV''" "''foo-bar''"
          "[(''fq'', JStr ''language:de organization:foo-bar res_format:CSV'')]" example_config]
  by (simp add: org_or_publisher_def is_space_def is_word_char_def ascii_lower_def
                ascii_upper_def ascii_digits_def)

section \<open>Validation before the client is called\<close>

lemma field_violated_issue:
  "field_violated a f \<Longrightarrow> field_issues a f \<noteq> []"
  by (cases f) (auto simp: field_violated_def field_issues_def Let_def split: option.splits if_splits)

lemma safeParse_violated:
  assumes "list_ex (field_violated a) (shape sch)"
  shows "\<exists>issues. issues \<noteq> [] \<and> safeParse sch a = Inl issues"
proof (cases a)
  case (JObj kvs)
  from assms obtain f where f: "f \<in> set (shape sch)" "field_violated a f"
    by (auto simp: list_ex_iff)
  then have "concat (map (field_issues a) (shape sch)) \<noteq> []"
    using field_violated_issue by fastforce
  then show ?thesis by (simp add: safeParse_def JObj Let_def)
qed (simp_all add: safeParse_def)

lemma falsy_get_prop: "\<not> truthy a \<Longrightarrow> get_prop a k = get_prop (JObj []) k"
  by (cases a) simp_all

lemma field_violated_defaulted:
  "field_violated a f = field_violated (if truthy a then a else JObj []) f"
  using falsy_get_prop [of a] by (cases f) (simp add: field_violated_def del: get_prop.simps)

lemma handler_rejects:
  assumes "violates_shape t a"
  shows "\<exists>issues. issues \<noteq> [] \<and>
     tool_handler net cfg now t a =
       \<lparr>envelope = error_envelope (errorPrefix t @ error_message issues),
        calls = [], requests = []\<rparr>"
proof (cases "schema t")
  case None
  with assms show ?thesis by (simp add: violates_shape_def declared_fields_def)
next
  case (Some sch)
  with assms have "list_ex (field_violated a) (shape sch)"
    by (simp add: violates_shape_def declared_fields_def)
  then have "list_ex (field_violated (if truthy a then a else JObj [])) (shape sch)"
    using field_violated_defaulted [of a] by (simp add: list_ex_iff)
  from safeParse_violated [OF this] obtain issues where
    "issues \<noteq> []" "safeParse sch (if truthy a then a else JObj []) = Inl issues" by blast
  then show ?thesis by (auto simp: tool_handler_def Some)
qed

lemma tool_names_distinct: "distinct (map name toolDefs)"
  by (simp add: toolDefs_def getCatalogTools_def getOrgTaxonomyTools_def getDatastoreTools_def
                getResourcesTools_def getStatusTools_def catalog_tool_def plain_tool_def)


lemma handlers_lookup:
  assumes "t \<in> set toolDefs"
  shows "map_of (handlers net cfg now) (name t) =
     Some (\<lambda>a. (Returned (envelope (tool_handler net cfg now t a)),
                 requests (tool_handler net cfg now t a)))"
proof -
  have "distinct (map fst (handlers net cfg now))"
    using tool_names_distinct by (simp add: handlers_def comp_def)
  moreover have "(name t, (\<lambda>a. (Returned (envelope (tool_handler net cfg now t a)),
                 requests (tool_handler net cfg now t a)))) \<in> set (handlers net cfg now)"
    using assms by (auto simp: handlers_def)
  ultimately show ?thesis by (rule map_of_is_SomeI)
qed

lemma error_envelope_shape:
  "truthy (error_envelope m)" "is_array (get_prop (error_envelope m) ''content'')"
  "get_prop (error_envelope m) ''isError'' = JBool True"
  by (simp_all add: error_envelope_def text_content_def)

lemma violates_shape_schema: "violates_shape t a \<Longrightarrow> schema t \<noteq> None"
  by (cases "schema t") (auto simp: violates_shape_def declared_fields_def)

lemma tool_handler_nullish:
  "schema t \<noteq> None \<Longrightarrow> a = JUndefined \<or> a = JNull \<Longrightarrow>
   tool_handler net cfg now t (JObj []) = tool_handler net cfg now t a"
  by (auto simp: tool_handler_def)

text \<open>
  Claim C1. For every tool of the registry and all arguments that violate its declared
  shape (a required field is missing, or a field has a value of the wrong type or a
  number outside the declared range), the handler returns an error envelope
  (\<open>isError\<close> true) whose text is the diagnostic of the failed parse, calls no
  operation of the client and issues no request; the dispatch core returns that same
  envelope.
\<close>

theorem invalid_arguments_rejected:
  assumes "t \<in> set toolDefs" and "violates_shape t args"
  shows "\<exists>issues. issues \<noteq> [] \<and>
     envelope (tool_handler net cfg now t args) =
       error_envelope (errorPrefix t @ error_message issues) \<and>
     get_prop (envelope (tool_handler net cfg now t args)) ''isError'' = JBool True \<and>
     calls (tool_handler net cfg now t args) = [] \<and>
     requests (tool_handler net cfg now t args) = [] \<and>
     callTool (handlers net cfg now) (name t) args =
       (error_envelope (errorPrefix t @ error_message issues), [])"
proof -
  from handler_rejects [OF assms(2)] obtain issues where i: "issues \<noteq> []"
    and h: "tool_handler net cfg now t args =
       \<lparr>envelope = error_envelope (errorPrefix t @ error_message issues),
        calls = [], requests = []\<rparr>" by blast
  have "tool_handler net cfg now t
          (if args = JUndefined \<or> args = JNull then JObj [] else args) =
        tool_handler net cfg now t args"
    using tool_handler_nullish [OF violates_shape_schema [OF assms(2)], of args net cfg now]
    by auto
  then have "callTool (handlers net cfg now) (name t) args =
          (error_envelope (errorPrefix t @ error_message issues), [])"
    by (simp add: callTool_def lookup_handler_def handlers_lookup [OF assms(1)] h
                  error_envelope_shape Let_def)
  with i h show ?thesis by (auto simp: error_envelope_shape)
qed

theorem invalid_arguments_rejected_witness:
  "\<exists>issues. issues \<noteq> [] \<and>
     callTool (handlers example_network example_config 0) ''package_search''
        (JObj [(''rows'', JNum (-5))]) =
       (error_envelope (''Invalid arguments for package_search: '' @ error_message issues), [])"
proof -
  let ?t = "catalog_tool ''package_search'' PackageSearchSchema PackageSearch"
  have m: "?t \<in> set toolDefs" by (simp add: toolDefs_def getCatalogTools_def)
  have v: "violates_shape ?t (JObj [(''rows'', JNum (-5))])"
    by (simp add: violates_shape_def declared_fields_def catalog_tool_def PackageSearchSchema_def
                  optional_def field_violated_def is_integer_def)
  from invalid_arguments_rejected [OF m v, of example_network example_config 0]
  show ?thesis by (auto simp: catalog_tool_def)
qed

section \<open>Undeclared fields and inherited names\<close>

lemmas tool_table_defs =
  toolDefs_def getCatalogTools_def getOrgTaxonomyTools_def getDatastoreTools_def
  getResourcesTools_def getStatusTools_def catalog_tool_def plain_tool_def

text \<open>
  Claim C5 says that every tool rejects arguments with a top-level field its shape does
  not declare. The code at the arguments \<open>{foo: 1}\<close> of \<open>package_search\<close>: \<open>foo\<close> is
  no declared property and the advertised shape allows no additional one, yet the
  schema strips the field, the parse succeeds with the empty object and the handler
  calls the dataset search.
\<close>

theorem undeclared_field_accepted:
  "safeParse PackageSearchSchema (JObj [(''foo'', JNum 1)]) = Inr (JObj []) \<and>
   catalog_tool ''package_search'' PackageSearchSchema PackageSearch \<in> set toolDefs \<and>
   ''foo'' \<notin> set (properties (catalog_tool ''package_search'' PackageSearchSchema PackageSearch)) \<and>
   \<not> additionalProperties (catalog_tool ''package_search'' PackageSearchSchema PackageSearch) \<and>
   calls (tool_handler net cfg now
            (catalog_tool ''package_search'' PackageSearchSchema PackageSearch)
            (JObj [(''foo'', JNum 1)])) = [PackageSearch (JObj [])]"
  by (simp add: safeParse_def PackageSearchSchema_def optional_def field_issues_def extra_keys_def
                tool_table_defs tool_handler_def invoke_def split: prod.splits sum.splits)

theorem undeclared_field_accepted_witness:
  "calls (tool_handler example_network example_config 0
            (catalog_tool ''package_search'' PackageSearchSchema PackageSearch)
            (JObj [(''foo'', JNum 1)])) = [PackageSearch (JObj [])]"
  using undeclared_field_accepted [of example_network example_config 0] by simp

lemma strict_schema_rejects:
  "\<exists>issues. safeParse LicenseListSchema (JObj [(''foo'', JNum 1)]) = Inl issues"
  by (simp add: safeParse_def LicenseListSchema_def extra_keys_def)

lemma status_show_ignores_arguments:
  "calls (tool_handler net cfg now (toolDefs ! 23) a) = [StatusShow]"
  by (simp add: tool_table_defs tool_handler_def invoke_def split: prod.splits sum.splits)

lemma constructor_not_registered: "map_of (handlers net cfg now) ''constructor'' = None"
  by (simp add: handlers_def tool_table_defs)

text \<open>
  Claim C2 says that an unknown tool name is answered by an error envelope that names
  the tool. The code at the name \<open>constructor\<close>, which no tool has, with the arguments
  \<open>{content: []}\<close>: the lookup finds the inherited \<open>Object\<close>, which returns the
  arguments, and the core returns them as the response, an envelope without \<open>isError\<close>
  that does not name the tool.
\<close>

theorem inherited_name_dispatched:
  "''constructor'' \<notin> set (map name toolDefs) \<and>
   callTool (handlers net cfg now) ''constructor'' (JObj [(''content'', JArr [])]) =
     (JObj [(''content'', JArr [])], [])"
  by (simp add: callTool_def lookup_handler_def constructor_not_registered
                object_prototype_function_def)
     (simp add: tool_table_defs)

theorem inherited_name_dispatched_witness:
  "callTool (handlers example_network example_config 0) ''constructor''
     (JObj [(''content'', JArr [])]) = (JObj [(''content'', JArr [])], [])"
  using inherited_name_dispatched [of example_network example_config 0] by simp

text \<open>
  For a name that is not inherited the core does what the claim says: no own handler
  gives the not-found envelope; a result without a \<open>content\<close> array gives the
  invalid-result envelope; a conforming result is passed on; a thrown value gives the
  failure envelope with the text of that value.
\<close>

lemma callTool_registered:
  fixes a :: jsval
  defines "args \<equiv> (if a = JUndefined \<or> a = JNull then JObj [] else a)"
  shows "(map_of hs k = None \<and> object_prototype_function k = None \<longrightarrow>
            callTool hs k a = (error_envelope (not_found_text k), [])) \<and>
         (map_of hs k = Some h \<and> h args = (Returned r, reqs) \<and>
            \<not> is_array (get_prop r ''content'') \<longrightarrow>
            callTool hs k a = (error_envelope (invalid_result_text k), reqs)) \<and>
         (map_of hs k = Some h \<and> h args = (Returned r, reqs) \<and>
            truthy r \<and> is_array (get_prop r ''content'') \<longrightarrow>
            callTool hs k a = (r, reqs)) \<and>
         (map_of hs k = Some h \<and> h args = (Threw e, reqs) \<longrightarrow>
            callTool hs k a = (error_envelope (failed_text k e), reqs))"
  by (auto simp: callTool_def lookup_handler_def args_def Let_def)

section \<open>Parameters in the outgoing request\<close>

lemma json_level:
  "gap = 0 \<Longrightarrow> json_text gap l v = json_text gap l' v"
  "gap = 0 \<Longrightarrow> json_items gap l xs = json_items gap l' xs"
  "gap = 0 \<Longrightarrow> json_props gap l kvs = json_props gap l' kvs"
proof (induction gap l v and gap l xs and gap l kvs arbitrary: l' and l' and l'
       rule: json_text_json_items_json_props.induct)
  case (6 gap lvl xs)
  from 6(1) [OF 6(2), of "Suc l'"] 6(2) show ?case by (simp add: json_wrap_def)
next
  case (7 gap lvl kvs)
  from 7(1) [OF 7(2), of "Suc l'"] 7(2) show ?case by (simp add: json_wrap_def)
next
  case (9 gap lvl x xs)
  from 9(1) [OF 9(3), of l'] 9(2) [OF 9(3), of l'] show ?case by simp
next
  case (11 gap lvl k v kvs)
  show ?case
  proof (cases "v = JUndefined")
    case True
    with 11(1) [OF True 11(4), of l'] show ?thesis by simp
  next
    case False
    with 11(2) [OF False 11(4), of l'] 11(3) [OF False 11(4), of l'] show ?thesis by simp
  qed
qed simp_all

lemma json_props_members:
  "json_props 0 l kvs = map body_member (filter (\<lambda>(k, v). v \<noteq> JUndefined) kvs)"
proof (induction kvs)
  case Nil
  then show ?case by simp
next
  case (Cons a kvs)
  obtain k v where a: "a = (k, v)" by (cases a)
  have "json_text 0 l v = json_text 0 0 v" by (rule json_level(1)) simp
  then show ?case using Cons by (simp add: a body_member_def JSON_stringify_def)
qed

lemma request_body_postAction:
  "request_body (postAction cfg p params n) =
     Some (json_wrap ''{'' ''}'' 0 0
             (map body_member (filter (\<lambda>(k, v). v \<noteq> JUndefined) params)))"
  by (simp add: request_body_def postAction_def JSON_stringify_def json_props_members)


lemma built_get:
  "distinct (map fst ps) \<Longrightarrow> built_from_mapping cfg (getAction cfg p ps n)"
  unfolding built_from_mapping_def by blast

lemma built_post:
  "distinct (map fst ps) \<Longrightarrow> built_from_mapping cfg (postAction cfg p ps n)"
  unfolding built_from_mapping_def by blast

lemma request_of_mapping:
  assumes "client_request cfg now c = Inr req"
  shows "built_from_mapping cfg req"
  using assms
  by (cases c) (auto simp: operation_defs Let_def built_get built_post split: if_splits)

text \<open>
  Claim C8, amended. For every parameter mapping with distinct names: a parameter goes
  out with a GET exactly when its value is neither \<open>undefined\<close> nor \<open>null\<close>, as the
  text of its encoded value, which for an array or an object is its JSON text; the body
  of a POST is the JSON text of the object made of exactly the members whose value is
  not \<open>undefined\<close>, each with its JSON text (so an array or an object is sent as its
  JSON text, and a \<open>null\<close> member is sent as \<open>null\<close>). Every request of every
  operation is built from such a mapping.
\<close>

theorem request_parameters_encoded:
  assumes "distinct (map fst params)"
  shows "(\<forall>k. sent_param (getAction cfg p params n) k =
            (case map_of params k of
               None \<Rightarrow> None
             | Some v \<Rightarrow> if v = JUndefined \<or> v = JNull then None
                        else Some (js_to_string (encodeParam v)))) \<and>
         (\<forall>k v. map_of params k = Some v \<and> ((\<exists>xs. v = JArr xs) \<or> (\<exists>kvs. v = JObj kvs)) \<longrightarrow>
            sent_param (getAction cfg p params n) k = Some (JSON_stringify v)) \<and>
         request_body (postAction cfg p params n) =
           Some (json_wrap ''{'' ''}'' 0 0
                   (map body_member (filter (\<lambda>(k, v). v \<noteq> JUndefined) params))) \<and>
         (\<forall>c req. client_request cfg now c = Inr req \<longrightarrow> built_from_mapping cfg req)"
proof (intro conjI allI impI)
  fix k
  show "sent_param (getAction cfg p params n) k =
            (case map_of params k of
               None \<Rightarrow> None
             | Some v \<Rightarrow> if v = JUndefined \<or> v = JNull then None
                        else Some (js_to_string (encodeParam v)))"
    by (rule sent_param_getAction [OF assms])
next
  fix k v
  assume "map_of params k = Some v \<and> ((\<exists>xs. v = JArr xs) \<or> (\<exists>kvs. v = JObj kvs))"
  then show "sent_param (getAction cfg p params n) k = Some (JSON_stringify v)"
    by (auto simp: sent_param_getAction [OF assms] encodeParam_simps)
next
  show "request_body (postAction cfg p params n) =
           Some (json_wrap ''{'' ''}'' 0 0
                   (map body_member (filter (\<lambda>(k, v). v \<noteq> JUndefined) params)))"
    by (rule request_body_postAction)
next
  fix c req
  assume "client_request cfg now c = Inr req"
  then show "built_from_mapping cfg req" by (rule request_of_mapping)
qed

lemma number_to_string_1: "number_to_string 1 = ''1''"
  by code_simp

theorem request_parameters_encoded_witness:
  \<open>searchParams (getAction example_config ''datastore_search''
       [(''a'', JUndefined), (''b'', JNull), (''c'', JArr [JStr ''x'']),
        (''d'', JObj [(''k'', JNum 1)])] ''datastore_search'') =
     [(''c'', ''["x"]''), (''d'', ''{"k":1}'')] \<and>
   sent_param (getAction example_config ''datastore_search''
       [(''a'', JUndefined), (''b'', JNull), (''c'', JArr [JStr ''x'']),
        (''d'', JObj [(''k'', JNum 1)])] ''datastore_search'') ''c'' = Some ''["x"]'' \<and>
   request_body (postAction example_config ''datastore_search''
       [(''a'', JUndefined), (''b'', JNull), (''c'', JArr [JStr ''x'']),
        (''d'', JObj [(''k'', JNum 1)])] ''datastore_search'') =
     Some ''{"b":null,"c":["x"],"d":{"k":1}}''\<close>
  using request_parameters_encoded
      [of "[(''a'', JUndefined), (''b'', JNull), (''c'', JArr [JStr ''x'']),
            (''d'', JObj [(''k'', JNum 1)])]" example_config "''datastore_search''"
          "''datastore_search''" 0]
  by (simp add: getAction_def buildSearchParams_def encodeParam_def JSON_stringify_def
                json_wrap_def json_quote_def json_escape_def body_member_def
                number_to_string_1)

text \<open>
  Claim C8 as stated fails for the body of a POST: the datastore row search with an
  object-valued \<open>filters\<close> and \<open>sort: null\<close> sends a body in which \<open>sort\<close> appears,
  with the value \<open>null\<close>.
\<close>

theorem null_field_sent_in_body:
  \<open>\<not> isl (client_request example_config 0
       (DatastoreSearch (JObj [(''resource_id'', JStr ''r''), (''filters'', JObj []),
                               (''sort'', JNull)]))) \<and>
   verb (projr (client_request example_config 0
       (DatastoreSearch (JObj [(''resource_id'', JStr ''r''), (''filters'', JObj []),
                               (''sort'', JNull)])))) = POST \<and>
   request_body (projr (client_request example_config 0
       (DatastoreSearch (JObj [(''resource_id'', JStr ''r''), (''filters'', JObj []),
                               (''sort'', JNull)])))) =
     Some ''{"resource_id":"r","filters":{},"sort":null,"include_total":false,"limit":25}''\<close>
  by (simp add: datastoreSearch_def Let_def postAction_def request_body_def example_config_def
                JSON_stringify_def json_wrap_def json_quote_def json_escape_def
                number_to_string_examples)

end
